theory Spec2Isabelle
  imports Complex_Main "HOL-Library.Char_ord" "HOL-Library.List_Lexorder"
begin

section \<open>Python values used by the FTP browser\<close>

text \<open>
  Exceptions are values. Every constructor is a subclass of Python's \<open>Exception\<close>, so an
  \<open>except Exception\<close> clause catches all of them. The string is the message, which is
  what \<open>str(e)\<close> and the f-string \<open>{e}\<close> produce.
\<close>

datatype exc =
    RuntimeError string
  | ValueError string
  | FileNotFoundError string
  | AttributeError string
  | UnicodeDecodeError string
  | ZeroDivisionError string
  | OSError string
  | OverflowError string
  | error_perm string
  | error_temp string

fun str_exc :: "exc \<Rightarrow> string" where
  "str_exc (RuntimeError m) = m"
| "str_exc (ValueError m) = m"
| "str_exc (FileNotFoundError m) = m"
| "str_exc (AttributeError m) = m"
| "str_exc (UnicodeDecodeError m) = m"
| "str_exc (ZeroDivisionError m) = m"
| "str_exc (OSError m) = m"
| "str_exc (OverflowError m) = m"
| "str_exc (error_perm m) = m"
| "str_exc (error_temp m) = m"

fun is_error_perm :: "exc \<Rightarrow> bool" where
  "is_error_perm (error_perm m) = True"
| "is_error_perm e = False"

fun is_UnicodeDecodeError :: "exc \<Rightarrow> bool" where
  "is_UnicodeDecodeError (UnicodeDecodeError m) = True"
| "is_UnicodeDecodeError e = False"

fun is_AttributeError :: "exc \<Rightarrow> bool" where
  "is_AttributeError (AttributeError m) = True"
| "is_AttributeError e = False"

text \<open>
  A Python float is a double: a real number with a significand of 53 bits. The
  result of an arithmetic operation is the exact result rounded to the nearest
  double, a tie going to the even significand. \<open>double_round x\<close> is that rounding:
  with \<open>2 ^ e \<le> \<bar>x\<bar> < 2 ^ (e + 1)\<close> the doubles near \<open>x\<close> are the multiples of
  \<open>2 ^ (e - 52)\<close>. The range of the exponent is not bounded here: a quotient above
  the largest double (about \<open>1.8e308\<close>), for which Python raises \<open>OverflowError\<close>,
  and the subnormal numbers below \<open>2.3e-308\<close> do not arise from sizes of images
  and displays that fit in memory.
\<close>

definition py_round :: "real \<Rightarrow> int" where
  "py_round x =
     (let f = \<lfloor>x\<rfloor>; d = x - of_int f
      in if d < 1 / 2 then f else if 1 / 2 < d then f + 1
         else if even f then f else f + 1)"

definition double_round :: "real \<Rightarrow> real" where
  "double_round x =
     (if x = 0 then 0
      else (let q = 2 powr (of_int \<lfloor>log 2 \<bar>x\<bar>\<rfloor> - 52)
            in of_int (py_round (x / q)) * q))"

text \<open>
  The conversion of an \<open>int\<close> to a float, which precedes an operation on an \<open>int\<close>
  and a float; \<open>a / b\<close> on two \<open>int\<close>s (the exact quotient, rounded once); \<open>x / y\<close> and
  \<open>x * y\<close> on floats; \<open>int(x)\<close> on a float (truncation towards zero). \<open>py_round\<close>
  above is \<open>round(x)\<close> (round half to even).
\<close>

definition py_float :: "int \<Rightarrow> real" where
  "py_float n = double_round (of_int n)"

definition py_int_truediv :: "int \<Rightarrow> int \<Rightarrow> exc + real" where
  "py_int_truediv a b =
     (if b = 0 then Inl (ZeroDivisionError ''division by zero'')
      else Inr (double_round (of_int a / of_int b)))"

definition py_truediv :: "real \<Rightarrow> real \<Rightarrow> exc + real" where
  "py_truediv x y =
     (if y = 0 then Inl (ZeroDivisionError ''float division by zero'')
      else Inr (double_round (x / y)))"

definition py_mul :: "real \<Rightarrow> real \<Rightarrow> real" where
  "py_mul x y = double_round (x * y)"

definition py_int :: "real \<Rightarrow> int" where
  "py_int x = (if 0 \<le> x then \<lfloor>x\<rfloor> else \<lceil>x\<rceil>)"

section \<open>Images and the Pillow operations the plugin calls\<close>

text \<open>
  An image is its size and its pixels; \<open>pix img x y\<close> is the pixel in column \<open>x\<close> of
  row \<open>y\<close>, the origin in the upper left corner. Pillow keeps the two sides of an
  image in C integers of 32 bits: a side is never negative and stays below \<open>2 ^ 31\<close>.
  \<open>Image w h p\<close> is the image of that size with those pixels (the empty image, should
  a side be out of range; the operations below raise before they build such an image).
\<close>

typedef 'p image = "{(w :: nat, h :: nat, p :: int \<Rightarrow> int \<Rightarrow> 'p). w < 2 ^ 31 \<and> h < 2 ^ 31}"
  by (rule exI[of _ "(0, 0, undefined)"]) simp

setup_lifting type_definition_image

lift_definition width :: "'p image \<Rightarrow> nat" is "\<lambda>(w, h, p). w" .

lift_definition height :: "'p image \<Rightarrow> nat" is "\<lambda>(w, h, p). h" .

lift_definition pix :: "'p image \<Rightarrow> int \<Rightarrow> int \<Rightarrow> 'p" is "\<lambda>(w, h, p). p" .

lift_definition Image :: "nat \<Rightarrow> nat \<Rightarrow> (int \<Rightarrow> int \<Rightarrow> 'p) \<Rightarrow> 'p image" is
  "\<lambda>w h p. if w < 2 ^ 31 \<and> h < 2 ^ 31 then (w, h, p) else (0, 0, p)"
  by simp

type_synonym 'p resample = "'p image \<Rightarrow> int \<Rightarrow> int \<Rightarrow> int \<Rightarrow> int \<Rightarrow> 'p"

text \<open>
  \<open>img.rotate(90, expand=True)\<close>: Pillow's angle is in degrees counter clockwise, and
  for 90 with \<open>expand\<close> it is the transposition \<open>ROTATE_90\<close>: the upper right corner
  of the source becomes the upper left corner of the result.
\<close>

definition pil_rotate_90_expand :: "'p image \<Rightarrow> 'p image" where
  "pil_rotate_90_expand img =
     Image (height img) (width img) (\<lambda>x y. pix img (int (width img) - 1 - y) x)"

text \<open>The two quarter turns, named by their direction, to compare the code with.\<close>

definition rotate_clockwise :: "'p image \<Rightarrow> 'p image" where
  "rotate_clockwise img =
     Image (height img) (width img) (\<lambda>x y. pix img y (int (height img) - 1 - x))"

definition rotate_counter_clockwise :: "'p image \<Rightarrow> 'p image" where
  "rotate_counter_clockwise img =
     Image (height img) (width img) (\<lambda>x y. pix img (int (width img) - 1 - y) x)"

text \<open>A string between single quotes (code 39), as the messages have it.\<close>

definition quoted :: "string \<Rightarrow> string" where
  "quoted s = [CHR 0x27] @ s @ [CHR 0x27]"

text \<open>
  \<open>img.crop((left, upper, right, lower))\<close>: the region of that box; Pillow raises
  \<open>ValueError\<close> for a box whose right or lower edge lies before the left or upper
  one, and a side that does not fit a C integer cannot be passed on.
\<close>

fun pil_crop :: "'p image \<Rightarrow> int \<times> int \<times> int \<times> int \<Rightarrow> exc + 'p image" where
  "pil_crop img (left, upper, right, lower) =
     (if right < left then
        Inl (ValueError (''Coordinate '' @ quoted ''right'' @ '' is less than '' @ quoted ''left''))
      else if lower < upper then
        Inl (ValueError (''Coordinate '' @ quoted ''lower'' @ '' is less than '' @ quoted ''upper''))
      else if 2 ^ 31 \<le> right - left \<or> 2 ^ 31 \<le> lower - upper then
        Inl (OverflowError ''Python int too large to convert to C int'')
      else Inr (Image (nat (right - left)) (nat (lower - upper))
                  (\<lambda>x y. pix img (x + left) (y + upper))))"

text \<open>
  \<open>img.resize(size, Image.LANCZOS)\<close>: the result has the requested size, its pixels
  are those the resampling filter computes; the size is passed as two C integers,
  and Pillow raises \<open>ValueError\<close> for a size that is not positive.
\<close>

fun pil_resize :: "'p resample \<Rightarrow> 'p image \<Rightarrow> int \<times> int \<Rightarrow> exc + 'p image" where
  "pil_resize lanczos img (w, h) =
     (if 2 ^ 31 \<le> w \<or> 2 ^ 31 \<le> h \<or> w < - (2 ^ 31) \<or> h < - (2 ^ 31) then
        Inl (OverflowError ''Python int too large to convert to C int'')
      else if w \<le> 0 \<or> h \<le> 0 then Inl (ValueError ''height and width must be > 0'')
      else Inr (Image (nat w) (nat h) (lanczos img w h)))"

text \<open>
  \<open>ImageOps.contain(img, size, method)\<close>: the size is reduced on one side so that the
  aspect ratio of the image is kept, then the image is resized. The two ratios are
  quotients of \<open>int\<close>s; the reduced side is \<open>round(image.height / image.width * size[0])\<close>
  or \<open>round(image.width / image.height * size[1])\<close>.
\<close>

fun contain_size :: "'p image \<Rightarrow> int \<times> int \<Rightarrow> exc + int \<times> int" where
  "contain_size img (w, h) =
     (case py_int_truediv (int (width img)) (int (height img)) of
        Inl e \<Rightarrow> Inl e
      | Inr im_ratio \<Rightarrow>
     (case py_int_truediv w h of
        Inl e \<Rightarrow> Inl e
      | Inr dest_ratio \<Rightarrow>
        if im_ratio \<noteq> dest_ratio then
          if im_ratio > dest_ratio then
            (case py_int_truediv (int (height img)) (int (width img)) of
               Inl e \<Rightarrow> Inl e
             | Inr q \<Rightarrow> Inr (w, py_round (py_mul q (py_float w))))
          else Inr (py_round (py_mul im_ratio (py_float h)), h)
        else Inr (w, h)))"

definition pil_contain :: "'p resample \<Rightarrow> 'p image \<Rightarrow> int \<times> int \<Rightarrow> exc + 'p image" where
  "pil_contain lanczos img dimensions =
     (case contain_size img dimensions of
        Inl e \<Rightarrow> Inl e
      | Inr sz \<Rightarrow> pil_resize lanczos img sz)"

section \<open>Fitting the image to the display (\<open>_get_image\<close>, after decoding)\<close>

text \<open>
  The step "Handle vertical images based on user preference" of \<open>_get_image\<close>:
  it applies when the image is portrait and the display is landscape.
\<close>

fun handle_vertical :: "string \<Rightarrow> int \<times> int \<Rightarrow> 'p image \<Rightarrow> exc + 'p image" where
  "handle_vertical vertical_handling (display_width, display_height) img =
     (let img_width = int (width img); img_height = int (height img) in
      if img_height > img_width \<and> display_width > display_height then
        if vertical_handling = ''rotate'' then Inr (pil_rotate_90_expand img)
        else if vertical_handling = ''crop'' then
          (case py_int_truediv display_width display_height of
             Inl e \<Rightarrow> Inl e
           | Inr display_aspect \<Rightarrow>
          (case py_int_truediv img_width img_height of
             Inl e \<Rightarrow> Inl e
           | Inr img_aspect \<Rightarrow>
             if img_aspect > display_aspect then
               (let new_width = py_int (py_mul (py_float img_height) display_aspect);
                    left = (img_width - new_width) div 2
                in pil_crop img (left, 0, left + new_width, img_height))
             else
               (case py_truediv (py_float img_width) display_aspect of
                  Inl e \<Rightarrow> Inl e
                | Inr q \<Rightarrow>
                  (let new_height = py_int q;
                       top = (img_height - new_height) div 2
                   in pil_crop img (0, top, img_width, top + new_height)))))
        else Inr img
      else Inr img)"

text \<open>The step "Resize the image to fit the display dimensions".\<close>

definition final_resize ::
  "bool \<Rightarrow> 'p resample \<Rightarrow> int \<times> int \<Rightarrow> 'p image \<Rightarrow> exc + 'p image" where
  "final_resize padImage lanczos dimensions img =
     (if padImage then pil_contain lanczos img dimensions
      else pil_resize lanczos img dimensions)"

section \<open>Strings and paths\<close>

text \<open>
  File names are the strings \<open>ftplib\<close> decodes from the control connection; the plugin
  sets the encoding to latin-1, so a character is a byte. \<open>str.lower\<close> on such a
  string maps A-Z and the upper-case letters of the latin-1 block to their lower-case
  forms.
\<close>

definition lower_char :: "char \<Rightarrow> char" where
  "lower_char c =
     (let n = (of_char c :: nat)
      in if (65 \<le> n \<and> n \<le> 90) \<or> (192 \<le> n \<and> n \<le> 222 \<and> n \<noteq> 215)
         then char_of (n + 32) else c)"

definition lower :: "string \<Rightarrow> string" where
  "lower s = map lower_char s"

definition endswith :: "string \<Rightarrow> string \<Rightarrow> bool" where
  "endswith s ext = (length ext \<le> length s \<and> drop (length s - length ext) s = ext)"

text \<open>\<open>s.endswith(exts)\<close> with a tuple of suffixes.\<close>

definition endswith_any :: "string \<Rightarrow> string list \<Rightarrow> bool" where
  "endswith_any s exts = list_ex (endswith s) exts"

definition image_exts :: "string list" where
  "image_exts = [''.jpg'', ''.jpeg'', ''.png'', ''.bmp'', ''.gif'']"

text \<open>\<open>path.rstrip('/')\<close>.\<close>

definition rstrip_slash :: "string \<Rightarrow> string" where
  "rstrip_slash s = rev (dropWhile (\<lambda>c. c = CHR ''/'') (rev s))"

text \<open>\<open>os.path.join(path, name)\<close> (posixpath) with two arguments.\<close>

definition os_path_join :: "string \<Rightarrow> string \<Rightarrow> string" where
  "os_path_join a b =
     (if b \<noteq> [] \<and> hd b = CHR ''/'' then b
      else if a = [] \<or> last a = CHR ''/'' then a @ b
      else a @ ''/'' @ b)"

text \<open>\<open>s.replace("\\", "/")\<close>: every backslash (code 92) becomes a slash.\<close>

definition replace_backslash :: "string \<Rightarrow> string" where
  "replace_backslash s = map (\<lambda>c. if c = CHR 0x5C then CHR ''/'' else c) s"

text \<open>\<open>os.path.dirname(p)\<close> (posixpath).\<close>

definition os_path_dirname :: "string \<Rightarrow> string" where
  "os_path_dirname p =
     (let head = take (length p - length (takeWhile (\<lambda>c. c \<noteq> CHR ''/'') (rev p))) p
      in if head \<noteq> [] \<and> head \<noteq> replicate (length head) (CHR ''/'')
         then rstrip_slash head else head)"

text \<open>\<open>os.path.splitext(p)[1]\<close> (posixpath): the extension, leading dots of the
  file name do not start one.\<close>

definition splitext_ext :: "string \<Rightarrow> string" where
  "splitext_ext p =
     (let fname = rev (takeWhile (\<lambda>c. c \<noteq> CHR ''/'') (rev p));
          body = dropWhile (\<lambda>c. c = CHR ''.'') fname
      in if CHR ''.'' \<in> set body
         then CHR ''.'' # rev (takeWhile (\<lambda>c. c \<noteq> CHR ''.'') (rev body))
         else [])"

section \<open>The FTP session\<close>

text \<open>
  The remote server is given by what the calls of \<open>ftplib\<close> yield, each depending
  on the working directory of the session. \<open>pwd()\<close> raises, or returns the name
  \<open>ftplib\<close> reads from the reply: the quoted path of a 257 reply, and the empty
  string when that reply carries no quoted path. \<open>cwd(dirname)\<close> raises, or the
  session has a new working directory; \<open>ftplib\<close> sends the name as it is, but a
  dot for the empty name (and CDUP for \<open>..\<close>, for which the reply to the name \<open>..\<close>
  stands). \<open>mlsd()\<close> and \<open>nlst()\<close> raise, or return the entries of the working
  directory. RETR hands bytes to the callback, and may end with an exception.
  The state of a session is its working directory.
\<close>

type_synonym facts = "(string \<times> string) list"

record ftp_server =
  pwd_reply :: "string \<Rightarrow> exc + string"
  cwd_reply :: "string \<Rightarrow> string \<Rightarrow> exc + string"
  mlsd_reply :: "string \<Rightarrow> exc + (string \<times> facts) list"
  nlst_reply :: "string \<Rightarrow> exc + string list"
  retr_reply :: "string \<Rightarrow> string \<Rightarrow> string \<times> exc option"

definition ftp_pwd :: "ftp_server \<Rightarrow> string \<Rightarrow> exc + string" where
  "ftp_pwd srv wd = pwd_reply srv wd"

definition ftp_cwd :: "ftp_server \<Rightarrow> string \<Rightarrow> string \<Rightarrow> exc + string" where
  "ftp_cwd srv wd dirname = cwd_reply srv wd (if dirname = [] then ''.'' else dirname)"

definition ftp_mlsd :: "ftp_server \<Rightarrow> string \<Rightarrow> exc + (string \<times> facts) list" where
  "ftp_mlsd srv wd = mlsd_reply srv wd"

definition ftp_nlst :: "ftp_server \<Rightarrow> string \<Rightarrow> exc + string list" where
  "ftp_nlst srv wd = nlst_reply srv wd"

section \<open>Directory listing (\<open>_list_directory\<close>)\<close>

record dir_entry =
  e_name :: string
  e_path :: string
  e_type :: string
  e_size :: "string option"

record listing =
  l_current_path :: string
  l_parent_path :: string
  l_directories :: "dir_entry list"
  l_files :: "dir_entry list"

text \<open>The loop over the MLSD entries.\<close>

fun mlsd_classify ::
  "string \<Rightarrow> (string \<times> facts) list \<Rightarrow> dir_entry list \<Rightarrow> dir_entry list
   \<Rightarrow> dir_entry list \<times> dir_entry list" where
  "mlsd_classify path [] directories files = (directories, files)"
| "mlsd_classify path ((name, facts) # entries) directories files =
     (if name = ''.'' \<or> name = ''..'' then mlsd_classify path entries directories files
      else
        let entry_type = (case map_of facts ''type'' of None \<Rightarrow> [] | Some t \<Rightarrow> t) in
        if entry_type = ''dir'' then
          mlsd_classify path entries
            (directories @
              [\<lparr>e_name = name, e_path = replace_backslash (os_path_join path name),
                e_type = ''dir'', e_size = None\<rparr>])
            files
        else if entry_type = ''file'' \<and> endswith_any (lower name) image_exts then
          mlsd_classify path entries directories
            (files @
              [\<lparr>e_name = name, e_path = replace_backslash (os_path_join path name),
                e_type = ''file'',
                e_size = Some (case map_of facts ''size'' of None \<Rightarrow> ''0'' | Some s \<Rightarrow> s)\<rparr>])
        else mlsd_classify path entries directories files)"

text \<open>
  The probe of the NLST branch: \<open>pwd\<close>, \<open>cwd(full_path)\<close>, \<open>cwd(curr_dir)\<close>. The
  result is the exception of the first call that fails, and the working directory the
  session is left in.
\<close>

definition probe_directory ::
  "ftp_server \<Rightarrow> string \<Rightarrow> string \<Rightarrow> (exc + unit) \<times> string" where
  "probe_directory srv full_path wd =
     (case ftp_pwd srv wd of
        Inl e \<Rightarrow> (Inl e, wd)
      | Inr curr_dir \<Rightarrow>
     (case ftp_cwd srv wd full_path of
        Inl e \<Rightarrow> (Inl e, wd)
      | Inr wd1 \<Rightarrow>
     (case ftp_cwd srv wd1 curr_dir of
        Inl e \<Rightarrow> (Inl e, wd1)
      | Inr wd2 \<Rightarrow> (Inr (), wd2))))"

text \<open>The loop over the NLST names: only \<open>error_perm\<close> is caught inside the loop.\<close>

fun nlst_classify ::
  "ftp_server \<Rightarrow> string \<Rightarrow> string list \<Rightarrow> dir_entry list \<Rightarrow> dir_entry list \<Rightarrow> string
   \<Rightarrow> (exc + dir_entry list \<times> dir_entry list) \<times> string" where
  "nlst_classify srv path [] directories files wd = (Inr (directories, files), wd)"
| "nlst_classify srv path (name # names) directories files wd =
     (if name = ''.'' \<or> name = ''..'' then nlst_classify srv path names directories files wd
      else
        let full_path = replace_backslash (os_path_join path name) in
        case probe_directory srv full_path wd of
          (Inr u, wd') \<Rightarrow>
            nlst_classify srv path names
              (directories @
                [\<lparr>e_name = name, e_path = full_path, e_type = ''dir'', e_size = None\<rparr>])
              files wd'
        | (Inl e, wd') \<Rightarrow>
            if is_error_perm e then
              if endswith_any (lower name) image_exts then
                nlst_classify srv path names directories
                  (files @
                    [\<lparr>e_name = name, e_path = full_path, e_type = ''file'',
                      e_size = Some ''unknown''\<rparr>])
                  wd'
              else nlst_classify srv path names directories files wd'
            else (Inl e, wd'))"

text \<open>The body of the outer \<open>try\<close>: change directory, list, classify, sort.\<close>

definition list_directory_try ::
  "ftp_server \<Rightarrow> string \<Rightarrow> string \<Rightarrow> (exc + listing) \<times> string" where
  "list_directory_try srv path wd =
     (case ftp_cwd srv wd path of
        Inl e \<Rightarrow> (Inl e, wd)
      | Inr wd1 \<Rightarrow>
        let classified =
          (case ftp_mlsd srv wd1 of
             Inr entries \<Rightarrow> (Inr (mlsd_classify path entries [] []), wd1)
           | Inl e \<Rightarrow>
               if is_AttributeError e \<or> is_error_perm e then
                 (case ftp_nlst srv wd1 of
                    Inl e' \<Rightarrow> (Inl e', wd1)
                  | Inr names \<Rightarrow> nlst_classify srv path names [] [] wd1)
               else (Inl e, wd1))
        in
        case classified of
          (Inl e, wd2) \<Rightarrow> (Inl e, wd2)
        | (Inr (directories, files), wd2) \<Rightarrow>
            (Inr \<lparr>l_current_path = path,
                  l_parent_path = (if path \<noteq> ''/'' then os_path_dirname path else ''/''),
                  l_directories = sort_key (\<lambda>x. lower (e_name x)) directories,
                  l_files = sort_key (\<lambda>x. lower (e_name x)) files\<rparr>, wd2))"

text \<open>
  \<open>_list_directory(ftp, path)\<close> of the blueprint: any exception of the body is
  replaced by a \<open>RuntimeError\<close>. The method of the plugin has the same body, after
  the check that \<open>self.ftp\<close> is set.
\<close>

definition list_directory ::
  "ftp_server \<Rightarrow> string \<Rightarrow> string \<Rightarrow> (exc + listing) \<times> string" where
  "list_directory srv path wd =
     (case list_directory_try srv path wd of
        (Inl e, wd') \<Rightarrow>
          (Inl (RuntimeError (''Failed to list directory '' @ path @ '': '' @ str_exc e)), wd')
      | (Inr result, wd') \<Rightarrow> (Inr result, wd'))"

section \<open>Recursive enumeration (\<open>_list_images_recursive\<close>)\<close>

text \<open>
  The result of a call is \<open>None\<close> when the recursion is cut off, and otherwise what
  the call raises or returns, with the working directory the session is left in.
\<close>

type_synonym walk_result = "((exc + string list) \<times> string) option"

text \<open>
  The probe of an entry of unknown type, with the recursive call that follows it
  inside the same \<open>try\<close>: \<open>cwd(full_path)\<close>, \<open>cwd(current_dir)\<close>, then the call.
\<close>

definition probe_and_recurse ::
  "(string \<Rightarrow> string \<Rightarrow> walk_result) \<Rightarrow> ftp_server \<Rightarrow> string \<Rightarrow> string \<Rightarrow> string
   \<Rightarrow> walk_result" where
  "probe_and_recurse recurse srv current_dir full_path wd =
     (case ftp_cwd srv wd full_path of
        Inl e \<Rightarrow> Some (Inl e, wd)
      | Inr wd1 \<Rightarrow>
     (case ftp_cwd srv wd1 current_dir of
        Inl e \<Rightarrow> Some (Inl e, wd1)
      | Inr wd2 \<Rightarrow> recurse full_path wd2))"

text \<open>
  The body of the loop for one entry that is not \<open>.\<close> or \<open>..\<close>: the paths to add to
  \<open>images\<close>. Every exception ends the iteration (\<open>continue\<close>) with nothing added.
\<close>

definition walk_entry ::
  "(string \<Rightarrow> string \<Rightarrow> walk_result) \<Rightarrow> ftp_server \<Rightarrow> string list \<Rightarrow> string \<Rightarrow> string
   \<Rightarrow> string \<Rightarrow> facts \<Rightarrow> string \<Rightarrow> (string list \<times> string) option" where
  "walk_entry recurse srv exts path current_dir name facts wd =
     (let full_path = rstrip_slash path @ ''/'' @ name;
          entry_type = map_of facts ''type'';
          image_check = (if endswith_any (lower name) exts then [full_path] else [])
      in
      if entry_type = Some ''dir'' then
        (case recurse full_path wd of
           None \<Rightarrow> None
         | Some (Inl e, wd') \<Rightarrow> Some ([], wd')
         | Some (Inr found, wd') \<Rightarrow> Some (found, wd'))
      else if entry_type = Some ''file'' \<or> entry_type = None then
        if entry_type = None then
          (case probe_and_recurse recurse srv current_dir full_path wd of
             None \<Rightarrow> None
           | Some (Inr found, wd') \<Rightarrow> Some (found, wd')
           | Some (Inl e, wd') \<Rightarrow>
               if is_error_perm e \<or> is_UnicodeDecodeError e then Some (image_check, wd')
               else Some ([], wd'))
        else Some (image_check, wd)
      else Some ([], wd))"

text \<open>The loop \<open>for name, facts in entries\<close>.\<close>

fun walk_entries ::
  "(string \<Rightarrow> string \<Rightarrow> walk_result) \<Rightarrow> ftp_server \<Rightarrow> string list \<Rightarrow> string \<Rightarrow> string
   \<Rightarrow> (string \<times> facts) list \<Rightarrow> string list \<Rightarrow> string \<Rightarrow> (string list \<times> string) option" where
  "walk_entries recurse srv exts path current_dir [] images wd = Some (images, wd)"
| "walk_entries recurse srv exts path current_dir ((name, facts) # entries) images wd =
     (if name = ''.'' \<or> name = ''..''
      then walk_entries recurse srv exts path current_dir entries images wd
      else
        case walk_entry recurse srv exts path current_dir name facts wd of
          None \<Rightarrow> None
        | Some (found, wd') \<Rightarrow>
            walk_entries recurse srv exts path current_dir entries (images @ found) wd')"

text \<open>The loop, then "Restore original directory" and the return.\<close>

definition walk_and_restore ::
  "(string \<Rightarrow> string \<Rightarrow> walk_result) \<Rightarrow> ftp_server \<Rightarrow> string list \<Rightarrow> string \<Rightarrow> string
   \<Rightarrow> (string \<times> facts) list \<Rightarrow> string \<Rightarrow> walk_result" where
  "walk_and_restore recurse srv exts path current_dir entries wd =
     (case walk_entries recurse srv exts path current_dir entries [] wd of
        None \<Rightarrow> None
      | Some (images, wd') \<Rightarrow>
          (case ftp_cwd srv wd' current_dir of
             Inl e \<Rightarrow> Some (Inl e, wd')
           | Inr wd'' \<Rightarrow> Some (Inr images, wd'')))"

text \<open>The body of the outer \<open>try\<close> of one call.\<close>

definition list_images_try ::
  "(string \<Rightarrow> string \<Rightarrow> walk_result) \<Rightarrow> ftp_server \<Rightarrow> string list \<Rightarrow> string \<Rightarrow> string
   \<Rightarrow> walk_result" where
  "list_images_try recurse srv exts path wd =
     (case ftp_pwd srv wd of
        Inl e \<Rightarrow> Some (Inl e, wd)
      | Inr current_dir \<Rightarrow>
     (case ftp_cwd srv wd path of
        Inl e \<Rightarrow> Some (Inl e, wd)
      | Inr wd1 \<Rightarrow>
     (case ftp_mlsd srv wd1 of
        Inr entries \<Rightarrow> walk_and_restore recurse srv exts path current_dir entries wd1
      | Inl e \<Rightarrow>
          if is_AttributeError e \<or> is_error_perm e \<or> is_UnicodeDecodeError e then
            (case ftp_nlst srv wd1 of
               Inr names \<Rightarrow>
                 walk_and_restore recurse srv exts path current_dir
                   (map (\<lambda>name. (name, [])) names) wd1
             | Inl ue \<Rightarrow>
                 if is_UnicodeDecodeError ue then
                   (case ftp_cwd srv wd1 current_dir of
                      Inl e' \<Rightarrow> Some (Inl e', wd1)
                    | Inr wd2 \<Rightarrow> Some (Inr [], wd2))
                 else Some (Inl ue, wd1))
          else Some (Inl e, wd1))))"

definition list_images_call ::
  "(string \<Rightarrow> string \<Rightarrow> walk_result) \<Rightarrow> ftp_server \<Rightarrow> string list \<Rightarrow> string \<Rightarrow> string
   \<Rightarrow> walk_result" where
  "list_images_call recurse srv exts path wd =
     (case list_images_try recurse srv exts path wd of
        None \<Rightarrow> None
      | Some (Inl e, wd') \<Rightarrow>
          Some (Inl (RuntimeError
            (''Failed to list images in '' @ path @ '': '' @ str_exc e)), wd')
      | Some (Inr images, wd') \<Rightarrow> Some (Inr images, wd'))"

text \<open>
  \<open>_list_images_recursive(path, image_exts)\<close> on a live session. The first argument
  bounds the depth of the recursion: the source has no bound, and a server whose
  directories form a cycle keeps it descending.
\<close>

fun list_images_recursive ::
  "nat \<Rightarrow> ftp_server \<Rightarrow> string list \<Rightarrow> string \<Rightarrow> string \<Rightarrow> walk_result" where
  "list_images_recursive 0 srv exts path wd = None"
| "list_images_recursive (Suc fuel) srv exts path wd =
     list_images_call (\<lambda>p w. list_images_recursive fuel srv exts p w) srv exts path wd"

section \<open>The plugin object, the local disk and the surroundings\<close>

text \<open>
  \<open>self.ftp\<close> is \<open>None\<close> or an \<open>FTP\<close> object; the object is connected, with the
  working directory of its session, or it is the object \<open>_connect_ftp\<close> leaves
  behind when connecting fails. \<open>self.temp_files\<close> is the list of scratch paths.
  The local disk maps the paths that exist to their contents. The calls that release
  something, \<open>os.remove(path)\<close> and \<open>quit()\<close>, are recorded in the order in which
  they are made, whether they succeed or raise.
\<close>

datatype ftp_conn = Unconnected | Connected string

datatype event = os_remove string | ftp_quit

record state =
  ftp :: "ftp_conn option"
  temp_files :: "string list"
  local_files :: "string \<rightharpoonup> string"
  events :: "event list"

text \<open>
  What the plugin does not decide: the remote server; the outcome of connecting and
  logging in (an exception, or the working directory after login); of \<open>quit\<close>; of
  \<open>NamedTemporaryFile(delete=False, suffix=...)\<close> (an exception, or the path of the
  new file); of \<open>os.remove\<close>; the decoder \<open>Image.open(...).convert("RGB")\<close>;
  \<open>ImageOps.exif_transpose\<close>; the resampling filter; the random generator behind
  \<open>random.choice\<close>; and, for the preview of the blueprint, thumbnail and encoding.
\<close>

type_synonym conn_params = "string \<times> int \<times> string \<times> string \<times> bool \<times> bool"

record 'p env =
  remote :: ftp_server
  connect_reply :: "conn_params \<Rightarrow> exc + string"
  quit_reply :: "exc option"
  tmp_reply :: "string \<Rightarrow> exc + string"
  remove_reply :: "string \<Rightarrow> exc option"
  image_open :: "string \<Rightarrow> exc + 'p image"
  exif_transpose :: "'p image \<Rightarrow> exc + 'p image"
  lanczos :: "'p resample"
  randbelow :: "nat \<Rightarrow> nat"
  encode_preview :: "'p image \<Rightarrow> exc + string"

text \<open>What a call on an \<open>FTP\<close> object without a socket raises.\<close>

definition not_connected :: exc where
  "not_connected =
     AttributeError (quoted ''NoneType'' @ '' object has no attribute '' @ quoted ''sendall'')"

subsection \<open>\<open>_cleanup_temp_files\<close>, \<open>_close_ftp\<close>, \<open>__del__\<close>\<close>



definition close_ftp :: "'p env \<Rightarrow> state \<Rightarrow> state" where
  "close_ftp env st =
     (case ftp st of
        None \<Rightarrow> st
      | Some conn \<Rightarrow>
          (case quit_reply env of
             Some e \<Rightarrow> st\<lparr>ftp := None, events := events st @ [ftp_quit]\<rparr>
           | None \<Rightarrow> st\<lparr>ftp := None, events := events st @ [ftp_quit]\<rparr>))"


subsection \<open>\<open>_connect_ftp\<close>\<close>

definition connect_ftp :: "'p env \<Rightarrow> conn_params \<Rightarrow> state \<Rightarrow> (exc + unit) \<times> state" where
  "connect_ftp env params st =
     (let st1 = close_ftp env st in
      case connect_reply env params of
        Inl e \<Rightarrow>
          (Inl (RuntimeError (''Failed to connect to FTP server: '' @ str_exc e)),
           st1\<lparr>ftp := Some Unconnected\<rparr>)
      | Inr wd \<Rightarrow> (Inr (), st1\<lparr>ftp := Some (Connected wd)\<rparr>))"

subsection \<open>The method \<open>_list_images_recursive\<close> of the plugin\<close>

definition plugin_list_images_recursive ::
  "nat \<Rightarrow> 'p env \<Rightarrow> string \<Rightarrow> state \<Rightarrow> ((exc + string list) \<times> state) option" where
  "plugin_list_images_recursive fuel env path st =
     (case ftp st of
        None \<Rightarrow> Some (Inl (RuntimeError ''FTP connection is not established''), st)
      | Some Unconnected \<Rightarrow>
          Some (Inl (RuntimeError
            (''Failed to list images in '' @ path @ '': '' @ str_exc not_connected)), st)
      | Some (Connected wd) \<Rightarrow>
          (case list_images_recursive fuel (remote env) image_exts path wd of
             None \<Rightarrow> None
           | Some (r, wd') \<Rightarrow> Some (r, st\<lparr>ftp := Some (Connected wd')\<rparr>)))"

subsection \<open>The method \<open>_list_directory\<close> of the plugin\<close>

text \<open>The check of \<open>self.ftp\<close>, then the body the blueprint has as a function.\<close>

definition plugin_list_directory ::
  "'p env \<Rightarrow> string \<Rightarrow> state \<Rightarrow> (exc + listing) \<times> state" where
  "plugin_list_directory env path st =
     (case ftp st of
        None \<Rightarrow> (Inl (RuntimeError ''FTP connection is not established''), st)
      | Some Unconnected \<Rightarrow>
          (Inl (RuntimeError
            (''Failed to list directory '' @ path @ '': '' @ str_exc not_connected)), st)
      | Some (Connected wd) \<Rightarrow>
          (case list_directory (remote env) path wd of
             (r, wd') \<Rightarrow> (r, st\<lparr>ftp := Some (Connected wd')\<rparr>)))"

subsection \<open>\<open>_download_image\<close> of the plugin\<close>

text \<open>
  The \<open>with\<close> block: the file is created; its path is appended to
  \<open>self.temp_files\<close>; then the transfer runs, writing what it receives.
\<close>

definition create_scratch :: "string \<Rightarrow> state \<Rightarrow> state" where
  "create_scratch local_path st = st\<lparr>local_files := (local_files st)(local_path \<mapsto> [])\<rparr>"

definition register_scratch :: "string \<Rightarrow> state \<Rightarrow> state" where
  "register_scratch local_path st = st\<lparr>temp_files := temp_files st @ [local_path]\<rparr>"

definition retrbinary ::
  "ftp_server \<Rightarrow> ftp_conn \<Rightarrow> string \<Rightarrow> string \<Rightarrow> (string \<rightharpoonup> string)
   \<Rightarrow> (exc + unit) \<times> (string \<rightharpoonup> string)" where
  "retrbinary srv conn remote_path local_path fs =
     (case conn of
        Unconnected \<Rightarrow> (Inl not_connected, fs)
      | Connected wd \<Rightarrow>
          (case retr_reply srv wd remote_path of
             (data, Some e) \<Rightarrow> (Inl e, fs(local_path \<mapsto> data))
           | (data, None) \<Rightarrow> (Inr (), fs(local_path \<mapsto> data))))"

definition scratch_suffix :: "string \<Rightarrow> string" where
  "scratch_suffix remote_path =
     (if splitext_ext remote_path \<noteq> [] then splitext_ext remote_path else ''.png'')"

definition download_image_try ::
  "'p env \<Rightarrow> ftp_conn \<Rightarrow> string \<Rightarrow> state \<Rightarrow> (exc + string) \<times> state" where
  "download_image_try env conn remote_path st =
     (case tmp_reply env (scratch_suffix remote_path) of
        Inl e \<Rightarrow> (Inl e, st)
      | Inr local_path \<Rightarrow>
          (let st1 = register_scratch local_path (create_scratch local_path st) in
           case retrbinary (remote env) conn remote_path local_path (local_files st1) of
             (Inl e, fs) \<Rightarrow> (Inl e, st1\<lparr>local_files := fs\<rparr>)
           | (Inr u, fs) \<Rightarrow> (Inr local_path, st1\<lparr>local_files := fs\<rparr>)))"

definition download_image :: "'p env \<Rightarrow> string \<Rightarrow> state \<Rightarrow> (exc + string) \<times> state" where
  "download_image env remote_path st =
     (case ftp st of
        None \<Rightarrow> (Inl (RuntimeError ''FTP connection is not established''), st)
      | Some conn \<Rightarrow>
          (case download_image_try env conn remote_path st of
             (Inl e, st') \<Rightarrow>
               (Inl (RuntimeError
                 (''Failed to download image '' @ remote_path @ '': '' @ str_exc e)), st')
           | (Inr local_path, st') \<Rightarrow> (Inr local_path, st')))"

subsection \<open>\<open>_get_image\<close>\<close>

text \<open>
  The settings, with the defaults of \<open>settings.get\<close> filled in; \<open>server\<close> and
  \<open>selected_image\<close> may be missing.
\<close>

record settings =
  s_server :: "string option"
  s_port :: int
  s_username :: string
  s_password :: string
  s_use_tls :: bool
  s_passive :: bool
  s_current_path :: string
  s_initial_path :: string
  s_random_mode :: bool
  s_selected_image :: "string option"
  s_verticalHandling :: string
  s_padImage :: bool

text \<open>\<open>random.choice(images)\<close> on a list that is not empty.\<close>

definition random_choice :: "'p env \<Rightarrow> string list \<Rightarrow> string" where
  "random_choice env images = images ! (randbelow env (length images) mod length images)"

text \<open>The selection: random mode, or the selected image.\<close>

definition select_image ::
  "nat \<Rightarrow> 'p env \<Rightarrow> settings \<Rightarrow> state \<Rightarrow> ((exc + string) \<times> state) option" where
  "select_image fuel env settings st =
     (if s_random_mode settings then
        (case plugin_list_images_recursive fuel env (s_current_path settings) st of
           None \<Rightarrow> None
         | Some (Inl e, st') \<Rightarrow> Some (Inl e, st')
         | Some (Inr images, st') \<Rightarrow>
             if images = [] then
               Some (Inl (FileNotFoundError
                 (''No images found under folder '' @ quoted (s_current_path settings))), st')
             else Some (Inr (random_choice env images), st'))
      else
        (case s_selected_image settings of
           None \<Rightarrow>
             Some (Inl (ValueError ''No image selected and random mode is disabled''), st)
         | Some selected_image \<Rightarrow>
             if selected_image = [] then
               Some (Inl (ValueError ''No image selected and random mode is disabled''), st)
             else Some (Inr selected_image, st)))"

text \<open>
  Opening, orientation (a failure of \<open>exif_transpose\<close> is logged and the image stays
  as decoded) and vertical handling: the image that reaches the final resize.
\<close>

definition prepare_image ::
  "'p env \<Rightarrow> settings \<Rightarrow> int \<times> int \<Rightarrow> string \<Rightarrow> (string \<rightharpoonup> string) \<Rightarrow> exc + 'p image" where
  "prepare_image env settings dimensions local_path fs =
     (case fs local_path of
        None \<Rightarrow> Inl (FileNotFoundError local_path)
      | Some data \<Rightarrow>
     (case image_open env data of
        Inl e \<Rightarrow> Inl e
      | Inr img0 \<Rightarrow>
          (let img = (case exif_transpose env img0 of Inl e \<Rightarrow> img0 | Inr t \<Rightarrow> t) in
           handle_vertical (s_verticalHandling settings) dimensions img)))"

text \<open>From the scratch file to the returned image.\<close>

definition render_file ::
  "'p env \<Rightarrow> settings \<Rightarrow> int \<times> int \<Rightarrow> string \<Rightarrow> (string \<rightharpoonup> string) \<Rightarrow> exc + 'p image" where
  "render_file env settings dimensions local_path fs =
     (case prepare_image env settings dimensions local_path fs of
        Inl e \<Rightarrow> Inl e
      | Inr img \<Rightarrow> final_resize (s_padImage settings) (lanczos env) dimensions img)"

text \<open>The body of the \<open>try\<close> of \<open>_get_image\<close>.\<close>

definition get_image_try ::
  "nat \<Rightarrow> 'p env \<Rightarrow> settings \<Rightarrow> int \<times> int \<Rightarrow> state \<Rightarrow> ((exc + 'p image) \<times> state) option" where
  "get_image_try fuel env settings dimensions st =
     (case select_image fuel env settings st of
        None \<Rightarrow> None
      | Some (Inl e, st1) \<Rightarrow> Some (Inl e, st1)
      | Some (Inr selected_image, st1) \<Rightarrow>
          (case download_image env selected_image st1 of
             (Inl e, st2) \<Rightarrow> Some (Inl e, st2)
           | (Inr local_path, st2) \<Rightarrow>
               Some (render_file env settings dimensions local_path (local_files st2), st2)))"

definition get_image ::
  "nat \<Rightarrow> 'p env \<Rightarrow> settings \<Rightarrow> int \<times> int \<Rightarrow> state \<Rightarrow> ((exc + 'p image) \<times> state) option" where
  "get_image fuel env settings dimensions st =
     (case s_server settings of
        None \<Rightarrow>
          Some (Inl (ValueError
            (''FTP Browser plugin: '' @ quoted ''server'' @ '' option is required'')), st)
      | Some server \<Rightarrow>
          if server = [] then
            Some (Inl (ValueError
              (''FTP Browser plugin: '' @ quoted ''server'' @ '' option is required'')), st)
          else
            (case connect_ftp env
                    (server, s_port settings, s_username settings, s_password settings,
                     s_use_tls settings, s_passive settings) st of
               (Inl e, st1) \<Rightarrow> Some (Inl e, st1)
             | (Inr u, st1) \<Rightarrow>
                 (case get_image_try fuel env settings dimensions st1 of
                    None \<Rightarrow> None
                  | Some (Inl e, st2) \<Rightarrow>
                      Some (Inl (RuntimeError (''Failed to get image: '' @ str_exc e)), st2)
                  | Some (Inr img, st2) \<Rightarrow> Some (Inr img, st2))))"

section \<open>The preview of the blueprint (\<open>ftp_browser_api.py\<close>)\<close>

text \<open>
  \<open>_download_image(ftp, remote_path)\<close> of the blueprint, on a connected session:
  the file is created and the transfer runs; no list of scratch files is kept.
\<close>

definition api_download_image ::
  "'p env \<Rightarrow> string \<Rightarrow> string \<Rightarrow> (string \<rightharpoonup> string) \<Rightarrow> (exc + string) \<times> (string \<rightharpoonup> string)" where
  "api_download_image env wd remote_path fs =
     (let attempt =
        (case tmp_reply env (scratch_suffix remote_path) of
           Inl e \<Rightarrow> (Inl e, fs)
         | Inr local_path \<Rightarrow>
             (case retrbinary (remote env) (Connected wd) remote_path local_path
                     (fs(local_path \<mapsto> [])) of
                (Inl e, fs') \<Rightarrow> (Inl e, fs')
              | (Inr u, fs') \<Rightarrow> (Inr local_path, fs')))
      in case attempt of
           (Inl e, fs') \<Rightarrow>
             (Inl (RuntimeError
               (''Failed to download image '' @ remote_path @ '': '' @ str_exc e)), fs')
         | (Inr local_path, fs') \<Rightarrow> (Inr local_path, fs'))"

record request =
  r_server :: "string option"
  r_username :: string
  r_password :: string
  r_use_tls :: bool
  r_passive :: bool
  r_path :: "string option"

datatype response = Preview string | Error string nat

text \<open>
  The \<open>finally\<close> block of \<open>preview_image\<close>: \<open>quit\<close> with its exceptions ignored, then
  the removal of \<open>local_path\<close> if it is set and exists.
\<close>

definition preview_finally ::
  "'p env \<Rightarrow> string option \<Rightarrow> (string \<rightharpoonup> string) \<Rightarrow> (exc + unit) \<times> (string \<rightharpoonup> string)" where
  "preview_finally env local_path fs =
     (case local_path of
        None \<Rightarrow> (Inr (), fs)
      | Some p \<Rightarrow>
          if p \<noteq> [] \<and> p \<in> dom fs then
            (case remove_reply env p of
               Some e \<Rightarrow> (Inl e, fs)
             | None \<Rightarrow> (Inr (), fs(p := None)))
          else (Inr (), fs))"

definition preview_image ::
  "'p env \<Rightarrow> request \<Rightarrow> (string \<rightharpoonup> string) \<Rightarrow> response \<times> (string \<rightharpoonup> string)" where
  "preview_image env data fs =
     (if r_server data = None \<or> r_server data = Some [] then (Error ''Server is required'' 400, fs)
      else if r_path data = None \<or> r_path data = Some [] then
        (Error ''Image path is required'' 400, fs)
      else
        case connect_reply env
               (the (r_server data), 21, r_username data, r_password data,
                r_use_tls data, r_passive data) of
          Inl e \<Rightarrow> (Error (''Failed to connect to FTP server: '' @ str_exc e) 500, fs)
        | Inr wd \<Rightarrow>
            (case api_download_image env wd (the (r_path data)) fs of
               (Inl e, fs1) \<Rightarrow>
                 (case preview_finally env None fs1 of
                    (Inl e', fs2) \<Rightarrow> (Error (str_exc e') 500, fs2)
                  | (Inr u, fs2) \<Rightarrow> (Error (str_exc e) 500, fs2))
             | (Inr local_path, fs1) \<Rightarrow>
                 (let result =
                    (case fs1 local_path of
                       None \<Rightarrow> Inl (FileNotFoundError local_path)
                     | Some bytes \<Rightarrow>
                         (case image_open env bytes of
                            Inl e \<Rightarrow> Inl e
                          | Inr img \<Rightarrow> encode_preview env img))
                  in case preview_finally env (Some local_path) fs1 of
                       (Inl e', fs2) \<Rightarrow> (Error (str_exc e') 500, fs2)
                     | (Inr u, fs2) \<Rightarrow>
                         (case result of
                            Inl e \<Rightarrow> (Error (str_exc e) 500, fs2)
                          | Inr img_str \<Rightarrow> (Preview img_str, fs2)))))"

section \<open>Quantities the properties are stated with\<close>

text \<open>
  The height the crop keeps: \<open>int(img_width / display_aspect)\<close> with
  \<open>display_aspect = display_width / display_height\<close>, each quotient rounded to a
  double.
\<close>

definition crop_height :: "'p image \<Rightarrow> int \<times> int \<Rightarrow> int" where
  "crop_height img dimensions =
     py_int (double_round (real (width img) /
       double_round (of_int (fst dimensions) / of_int (snd dimensions))))"

text \<open>The size of the image a call returns, if it returns one.\<close>

definition returned_size :: "((exc + 'p image) \<times> state) option \<Rightarrow> (nat \<times> nat) option" where
  "returned_size r =
     (case r of
        Some (Inr img, st) \<Rightarrow> Some (width img, height img)
      | Some (Inl e, st) \<Rightarrow> None
      | None \<Rightarrow> None)"

section \<open>A small server and its surroundings\<close>

text \<open>
  A server with the root directory \<open>/\<close>, holding the images \<open>Z.JPG\<close> and \<open>a.gif\<close>,
  the text file \<open>notes.txt\<close>, the directory \<open>b\<close> with the image \<open>c.png\<close>, the empty
  directory \<open>e\<close> and the directory \<open>locked\<close> that cannot be entered. With
  \<open>rich = False\<close> the server rejects MLSD. The transfer of \<open>/b/c.png\<close> breaks after
  two bytes.
\<close>

definition example_server :: "bool \<Rightarrow> ftp_server" where
  "example_server rich =
     \<lparr>pwd_reply = (\<lambda>wd. Inr wd),
      cwd_reply = (\<lambda>wd d. if d = ''/'' \<or> d = ''/b'' \<or> d = ''/e'' then Inr d
                           else Inl (error_perm ''550 Failed to change directory.'')),
      mlsd_reply = (\<lambda>wd.
        if \<not> rich then Inl (error_perm ''500 Unknown command.'')
        else if wd = ''/'' then
          Inr [(''.'', [(''type'', ''cdir'')]),
               (''b'', [(''type'', ''dir'')]),
               (''Z.JPG'', [(''type'', ''file''), (''size'', ''4'')]),
               (''notes.txt'', [(''type'', ''file''), (''size'', ''9'')]),
               (''locked'', [(''type'', ''dir'')]),
               (''e'', [(''type'', ''dir'')]),
               (''a.gif'', [(''type'', ''file''), (''size'', ''7'')])]
        else if wd = ''/b'' then Inr [(''c.png'', [(''type'', ''file''), (''size'', ''2'')])]
        else Inr []),
      nlst_reply = (\<lambda>wd.
        if wd = ''/'' then
          Inr [''.'', ''b'', ''Z.JPG'', ''notes.txt'', ''locked'', ''e'', ''a.gif'']
        else if wd = ''/b'' then Inr [''c.png'']
        else Inr []),
      retr_reply = (\<lambda>wd p.
        if p = ''/Z.JPG'' then (''JFIF'', None)
        else if p = ''/b/c.png'' then (''PN'', Some (error_temp ''426 Transfer aborted.''))
        else ([], Some (error_perm ''550 Failed to open file.'')))\<rparr>"

definition example_env :: "nat env" where
  "example_env =
     \<lparr>remote = example_server True,
      connect_reply = (\<lambda>params. Inr ''/''),
      quit_reply = None,
      tmp_reply = (\<lambda>suffix. Inr (''/tmp/tmpq'' @ suffix)),
      remove_reply = (\<lambda>p. None),
      image_open = (\<lambda>bytes. if bytes = ''JFIF'' then Inr (Image 400 300 (\<lambda>x y. 0))
                               else Inl (OSError ''cannot identify image file'')),
      exif_transpose = (\<lambda>img. Inr img),
      lanczos = (\<lambda>img w h x y. 0),
      randbelow = (\<lambda>n. 0),
      encode_preview = (\<lambda>img. Inr ''/9j/'')\<rparr>"

definition example_settings :: settings where
  "example_settings =
     \<lparr>s_server = Some ''nas'', s_port = 21, s_username = ''anonymous'', s_password = [],
      s_use_tls = False, s_passive = True, s_current_path = ''/'', s_initial_path = ''/'',
      s_random_mode = False, s_selected_image = Some ''/Z.JPG'',
      s_verticalHandling = ''rotate'', s_padImage = True\<rparr>"

definition fresh_plugin :: state where
  "fresh_plugin = \<lparr>ftp = None, temp_files = [], local_files = Map.empty, events = []\<rparr>"

definition raised :: "((exc + 'a) \<times> state) option \<Rightarrow> exc option" where
  "raised r = (case r of Some (Inl e, st) \<Rightarrow> Some e | Some (Inr x, st) \<Rightarrow> None | None \<Rightarrow> None)"


definition empty_folder_settings :: settings where
  "empty_folder_settings = example_settings\<lparr>s_random_mode := True, s_current_path := ''/e''\<rparr>"

definition nothing_selected_settings :: settings where
  "nothing_selected_settings = example_settings\<lparr>s_selected_image := None\<rparr>"


definition broken_preview_request :: request where
  "broken_preview_request =
     \<lparr>r_server = Some ''nas'', r_username = ''anonymous'', r_password = [],
      r_use_tls = False, r_passive = True, r_path = Some ''/b/c.png''\<rparr>"

section \<open>Returning to the working directory\<close>



section \<open>Rounding to a double\<close>

lemma py_round_bounds: "x - 1/2 \<le> of_int (py_round x)" "of_int (py_round x) \<le> x + 1/2"
  by (auto simp: py_round_def Let_def) linarith+

lemma py_round_of_int [simp]: "py_round (of_int n) = n"
  by (simp add: py_round_def)

lemma py_round_mono: "x \<le> y \<Longrightarrow> py_round x \<le> py_round y"
proof -
  assume xy: "x \<le> y"
  have fl: "\<lfloor>x\<rfloor> \<le> \<lfloor>y\<rfloor>" using xy by (rule floor_mono)
  show ?thesis
  proof (cases "\<lfloor>x\<rfloor> = \<lfloor>y\<rfloor>")
    case True
    then show ?thesis using xy by (auto simp: py_round_def Let_def)
  next
    case False
    then have "\<lfloor>x\<rfloor> + 1 \<le> \<lfloor>y\<rfloor>" using fl by linarith
    moreover have "py_round x \<le> \<lfloor>x\<rfloor> + 1" by (auto simp: py_round_def Let_def)
    moreover have "\<lfloor>y\<rfloor> \<le> py_round y" by (auto simp: py_round_def Let_def)
    ultimately show ?thesis by linarith
  qed
qed

lemma binade:
  assumes "0 < x"
  shows "2 powr of_int \<lfloor>log 2 x\<rfloor> \<le> x" "x < 2 powr (of_int \<lfloor>log 2 x\<rfloor> + 1)"
  using floor_log_eq_powr_iff[of x 2 "\<lfloor>log 2 x\<rfloor>"] assms by auto

lemma mantissa:
  assumes x0: "0 < x"
  defines "q \<equiv> 2 powr (of_int \<lfloor>log 2 x\<rfloor> - 52)"
  shows "0 < q" "2 ^ 52 \<le> x / q" "x / q < 2 ^ 53" "q * 2 ^ 52 = 2 powr of_int \<lfloor>log 2 x\<rfloor>"
proof -
  show q0: "0 < q" by (simp add: q_def)
  have e: "2 powr of_int \<lfloor>log 2 x\<rfloor> = q * 2 ^ 52"
    by (simp add: q_def powr_diff powr_realpow[symmetric] del: powr_realpow)
  then show "q * 2 ^ 52 = 2 powr of_int \<lfloor>log 2 x\<rfloor>" by simp
  have "q * 2 ^ 52 \<le> x" using binade(1)[OF x0] e by simp
  then show "2 ^ 52 \<le> x / q" using q0 by (simp add: field_simps)
  have "x < q * 2 ^ 52 * 2" using binade(2)[OF x0] e by (simp add: powr_add)
  then show "x / q < 2 ^ 53" using q0 by (simp add: field_simps)
qed


lemma double_round_0 [simp]: "double_round 0 = 0"
  by (simp add: double_round_def)

lemma double_round_pos_eq:
  assumes "0 < x"
  shows "double_round x =
     of_int (py_round (x / 2 powr (of_int \<lfloor>log 2 x\<rfloor> - 52))) * 2 powr (of_int \<lfloor>log 2 x\<rfloor> - 52)"
  using assms by (simp add: double_round_def Let_def)

lemma double_round_binade:
  assumes x0: "0 < x"
  shows "2 powr of_int \<lfloor>log 2 x\<rfloor> \<le> double_round x"
    and "double_round x \<le> 2 powr (of_int \<lfloor>log 2 x\<rfloor> + 1)"
proof -
  define q where "q = (2::real) powr (of_int \<lfloor>log 2 x\<rfloor> - 52)"
  note m = mantissa[OF x0, folded q_def]
  have d: "double_round x = of_int (py_round (x / q)) * q"
    unfolding q_def by (rule double_round_pos_eq[OF x0])
  have "py_round (2 ^ 52) \<le> py_round (x / q)" by (rule py_round_mono) (rule m(2))
  moreover have "py_round (2 ^ 52) = 2 ^ 52" using py_round_of_int[of "2 ^ 52"] by simp
  ultimately have lo: "(2::real) ^ 52 \<le> of_int (py_round (x / q))"
    by (metis of_int_le_iff of_int_numeral of_int_power)
  have "py_round (x / q) \<le> py_round (2 ^ 53)" by (rule py_round_mono) (use m(3) in simp)
  moreover have "py_round (2 ^ 53) = 2 ^ 53" using py_round_of_int[of "2 ^ 53"] by simp
  ultimately have hi: "of_int (py_round (x / q)) \<le> (2::real) ^ 53"
    by (metis of_int_le_iff of_int_numeral of_int_power)
  have "2 powr of_int \<lfloor>log 2 x\<rfloor> = 2 ^ 52 * q" using m(4) by (simp add: mult.commute)
  also have "\<dots> \<le> of_int (py_round (x / q)) * q"
    by (rule mult_right_mono[OF lo]) (use m(1) in simp)
  finally show "2 powr of_int \<lfloor>log 2 x\<rfloor> \<le> double_round x" unfolding d .
  have "of_int (py_round (x / q)) * q \<le> 2 ^ 53 * q"
    by (rule mult_right_mono[OF hi]) (use m(1) in simp)
  also have "\<dots> = 2 * (q * 2 ^ 52)" by simp
  also have "\<dots> = 2 powr (of_int \<lfloor>log 2 x\<rfloor> + 1)" unfolding m(4) by (simp add: powr_add)
  finally show "double_round x \<le> 2 powr (of_int \<lfloor>log 2 x\<rfloor> + 1)" unfolding d .
qed

lemma double_round_pos: "0 < x \<Longrightarrow> 0 < double_round x"
  using double_round_binade(1)[of x] powr_gt_zero[of 2 "of_int \<lfloor>log 2 x\<rfloor>"]
  by linarith

lemma double_round_mono:
  assumes "0 \<le> x" and "x \<le> y"
  shows "double_round x \<le> double_round y"
proof (cases "x = 0")
  case True
  show ?thesis
  proof (cases "y = 0")
    case True with \<open>x = 0\<close> show ?thesis by simp
  next
    case False
    then have "0 < y" using assms True by simp
    from double_round_pos[OF this] True show ?thesis by simp
  qed
next
  case False
  then have x0: "0 < x" using assms by simp
  then have y0: "0 < y" using assms by simp
  have le: "\<lfloor>log 2 x\<rfloor> \<le> \<lfloor>log 2 y\<rfloor>"
    by (rule floor_mono) (use x0 y0 assms in simp)
  show ?thesis
  proof (cases "\<lfloor>log 2 x\<rfloor> = \<lfloor>log 2 y\<rfloor>")
    case True
    define q where "q = (2::real) powr (of_int \<lfloor>log 2 y\<rfloor> - 52)"
    have q0: "0 < q" by (simp add: q_def)
    have dx: "double_round x = of_int (py_round (x / q)) * q"
      unfolding q_def True[symmetric] by (rule double_round_pos_eq[OF x0])
    have dy: "double_round y = of_int (py_round (y / q)) * q"
      unfolding q_def by (rule double_round_pos_eq[OF y0])
    have "x / q \<le> y / q" using assms q0 by (simp add: divide_right_mono)
    then have "py_round (x / q) \<le> py_round (y / q)" by (rule py_round_mono)
    then have "(of_int (py_round (x / q)) :: real) \<le> of_int (py_round (y / q))" by simp
    then show ?thesis unfolding dx dy using q0 by (simp add: mult_right_mono)
  next
    case False
    then have "\<lfloor>log 2 x\<rfloor> + 1 \<le> \<lfloor>log 2 y\<rfloor>" using le by linarith
    then have "(of_int \<lfloor>log 2 x\<rfloor> :: real) + 1 \<le> of_int \<lfloor>log 2 y\<rfloor>"
      by (metis of_int_1 of_int_add of_int_le_iff)
    then have "(2::real) powr (of_int \<lfloor>log 2 x\<rfloor> + 1) \<le> 2 powr of_int \<lfloor>log 2 y\<rfloor>"
      by (simp add: powr_mono)
    with double_round_binade(2)[OF x0] double_round_binade(1)[OF y0]
    show ?thesis by linarith
  qed
qed

lemma double_round_rel:
  assumes x0: "0 < x"
  shows "\<bar>double_round x - x\<bar> \<le> x / 2 ^ 53"
proof -
  define q where "q = (2::real) powr (of_int \<lfloor>log 2 x\<rfloor> - 52)"
  note m = mantissa[OF x0, folded q_def]
  have d: "double_round x = of_int (py_round (x / q)) * q"
    unfolding q_def by (rule double_round_pos_eq[OF x0])
  have "\<bar>of_int (py_round (x / q)) - x / q\<bar> \<le> 1 / 2"
    using py_round_bounds[of "x / q"] by linarith
  then have "\<bar>of_int (py_round (x / q)) - x / q\<bar> * q \<le> 1 / 2 * q"
    using m(1) by (simp add: mult_right_mono)
  moreover have "\<bar>of_int (py_round (x / q)) - x / q\<bar> * q = \<bar>double_round x - x\<bar>"
  proof -
    have "\<bar>of_int (py_round (x / q)) - x / q\<bar> * q = \<bar>(of_int (py_round (x / q)) - x / q) * q\<bar>"
      using m(1) by (simp add: abs_mult)
    also have "(of_int (py_round (x / q)) - x / q) * q = double_round x - x"
      using m(1) by (simp add: d algebra_simps)
    finally show ?thesis .
  qed
  ultimately have a: "\<bar>double_round x - x\<bar> \<le> q / 2" by simp
  have "q * 2 ^ 52 \<le> x" using m(2) m(1) by (simp add: field_simps)
  then have "q / 2 \<le> x / 2 ^ 53" by simp
  with a show ?thesis by linarith
qed

text \<open>Evaluation with an explicit exponent.\<close>

lemma floor_log2_div:
  assumes "(2::real) ^ 52 \<le> x * 2 ^ k" and "x * 2 ^ k < 2 ^ 53"
  shows "\<lfloor>log 2 x\<rfloor> = 52 - int k" and "0 < x"
proof -
  have p: "(0::real) < 2 ^ k" by simp
  have "(0::real) < 2 ^ 52" by simp
  then have "0 < x * 2 ^ k" using assms(1) by linarith
  then show x0: "0 < x" using p by (simp add: zero_less_mult_iff)
  have e: "(2::real) powr of_int (52 - int k) * 2 ^ k = 2 ^ 52"
    by (simp add: powr_diff powr_realpow[symmetric] del: powr_realpow)
  have "2 powr of_int (52 - int k) \<le> x"
  proof -
    have "2 powr of_int (52 - int k) * 2 ^ k \<le> x * 2 ^ k" using assms(1) e by simp
    then show ?thesis using p by simp
  qed
  moreover have "x < 2 powr (of_int (52 - int k) + 1)"
  proof -
    have "(2::real) powr (of_int (52 - int k) + 1) * 2 ^ k
            = 2 * (2 powr of_int (52 - int k) * 2 ^ k)"
      by (simp only: powr_add) simp
    also have "\<dots> = 2 ^ 53" unfolding e by simp
    finally have "x * 2 ^ k < 2 powr (of_int (52 - int k) + 1) * 2 ^ k"
      using assms(2) by simp
    then show ?thesis using p by simp
  qed
  ultimately show "\<lfloor>log 2 x\<rfloor> = 52 - int k"
    using floor_log_eq_powr_iff[of x 2 "52 - int k"] x0 by simp
qed

lemma double_round_eval:
  assumes "(2::real) ^ 52 \<le> x * 2 ^ k" and "x * 2 ^ k < 2 ^ 53"
  shows "double_round x = of_int (py_round (x * 2 ^ k)) / 2 ^ k"
proof -
  note f = floor_log2_div[OF assms]
  have q: "(2::real) powr (of_int \<lfloor>log 2 x\<rfloor> - 52) = 1 / 2 ^ k"
    unfolding f(1) by (simp add: powr_minus powr_realpow field_simps)
  show ?thesis unfolding double_round_pos_eq[OF f(2)] q by simp
qed

lemma double_round_of_nat:
  assumes "n < 2 ^ 53"
  shows "double_round (real n) = real n"
proof (cases "n = 0")
  case True then show ?thesis by simp
next
  case False
  then have n0: "0 < real n" by simp
  define e where "e = \<lfloor>log 2 (real n)\<rfloor>"
  have b: "2 powr of_int e \<le> real n" "real n < 2 powr (of_int e + 1)"
    unfolding e_def using binade[OF n0] by auto
  have e0: "0 \<le> e" unfolding e_def using False by (simp add: zero_le_log_cancel_iff)
  have "real n < 2 ^ 53" using assms by (metis of_nat_less_iff of_nat_numeral of_nat_power)
  moreover have "(2::real) powr 53 = 2 ^ 53" by simp
  ultimately have "2 powr of_int e < (2::real) powr 53" using b(1) by linarith
  then have "of_int e < (53::real)" by (rule powr_less_cancel) simp
  then have e52: "e \<le> 52" by linarith
  define k where "k = nat (52 - e)"
  have ke: "int k = 52 - e" using e52 by (simp add: k_def)
  have pe: "(2::real) powr of_int e * 2 ^ k = 2 ^ 52"
  proof -
    have "(2::real) powr of_int e * 2 ^ k = 2 powr of_int e * 2 powr (of_int (int k))"
      by (simp add: powr_realpow)
    also have "\<dots> = 2 powr (of_int e + of_int (int k))" by (simp add: powr_add)
    also have "of_int e + of_int (int k) = (52::real)" unfolding ke by simp
    finally show ?thesis by (simp add: powr_realpow[symmetric] del: powr_realpow)
  qed
  have 1: "(2::real) ^ 52 \<le> real n * 2 ^ k"
    using mult_right_mono[OF b(1), of "2 ^ k"] pe by simp
  have 2: "real n * 2 ^ k < 2 ^ 53"
  proof -
    have "real n * 2 ^ k < 2 powr (of_int e + 1) * 2 ^ k" using b(2) by simp
    also have "\<dots> = 2 * (2 powr of_int e * 2 ^ k)" by (simp add: powr_add)
    finally show ?thesis unfolding pe by simp
  qed
  have "real n * 2 ^ k = of_int (int (n * 2 ^ k))" by simp
  then have "py_round (real n * 2 ^ k) = int (n * 2 ^ k)" by (simp only: py_round_of_int)
  then show ?thesis unfolding double_round_eval[OF 1 2] by simp
qed

lemma double_round_1: "double_round 1 = 1"
  using double_round_of_nat[of 1] by simp

lemma double_round_nonneg: "0 \<le> x \<Longrightarrow> 0 \<le> double_round x"
  using double_round_mono[of 0 x] by simp

lemma double_round_ge_1: "1 \<le> x \<Longrightarrow> 1 \<le> double_round x"
  using double_round_mono[of 1 x] by (simp add: double_round_1)

lemma double_round_le_1: "0 \<le> x \<Longrightarrow> x \<le> 1 \<Longrightarrow> double_round x \<le> 1"
  using double_round_mono[of x 1] by (simp add: double_round_1)

lemma double_round_le_nat:
  assumes "0 \<le> x" and "x \<le> real n" and "n < 2 ^ 53"
  shows "double_round x \<le> real n"
  using double_round_mono[OF assms(1,2)] double_round_of_nat[OF assms(3)] by simp

lemma py_float_nat: "n < 2 ^ 53 \<Longrightarrow> py_float (int n) = real n"
  using double_round_of_nat[of n] by (simp add: py_float_def)

lemma double_round_lower:
  assumes "0 < x"
  shows "x * (1 - 1 / 2 ^ 53) \<le> double_round x"
proof -
  have "x - double_round x \<le> x / 2 ^ 53" using double_round_rel[OF assms] by linarith
  moreover have "x * (1 - 1 / 2 ^ 53) = x - x / 2 ^ 53" by (simp add: algebra_simps)
  ultimately show ?thesis by linarith
qed

lemma double_round_upper:
  assumes "0 < x"
  shows "double_round x \<le> x * (1 + 1 / 2 ^ 53)"
proof -
  have "double_round x - x \<le> x / 2 ^ 53" using double_round_rel[OF assms] by linarith
  moreover have "x * (1 + 1 / 2 ^ 53) = x + x / 2 ^ 53" by (simp add: algebra_simps)
  ultimately show ?thesis by linarith
qed

text \<open>A comparison of two rounded numbers holds of the numbers they were rounded from.\<close>

lemma double_round_less_imp:
  assumes "0 \<le> y" and "double_round x < double_round y"
  shows "x < y"
proof (rule ccontr)
  assume "\<not> x < y"
  then have "y \<le> x" by simp
  from double_round_mono[OF assms(1) this] assms(2) show False by simp
qed

section \<open>The size and the pixels of an image\<close>

lemma width_bound: "width img < 2 ^ 31"
  by transfer auto

lemma height_bound: "height img < 2 ^ 31"
  by transfer auto

lemma width_bound_numeral [simp]: "width img < 2147483648"
  using width_bound[of img] by simp

lemma height_bound_numeral [simp]: "height img < 2147483648"
  using height_bound[of img] by simp

lemma width_not_ge [simp]: "\<not> 2147483648 \<le> width img"
  using width_bound_numeral[of img] by linarith

lemma height_not_ge [simp]: "\<not> 2147483648 \<le> height img"
  using height_bound_numeral[of img] by linarith

lemma width_Image [simp]: "w < 2 ^ 31 \<Longrightarrow> h < 2 ^ 31 \<Longrightarrow> width (Image w h p) = w"
  by transfer simp

lemma height_Image [simp]: "w < 2 ^ 31 \<Longrightarrow> h < 2 ^ 31 \<Longrightarrow> height (Image w h p) = h"
  by transfer simp

lemma pix_Image [simp]: "pix (Image w h p) = p"
  by transfer simp

lemma width_less_53: "width img < 2 ^ 53"
proof -
  have "(2::nat) ^ 31 \<le> 2 ^ 53" by simp
  then show ?thesis using width_bound[of img] by linarith
qed

lemma height_less_53: "height img < 2 ^ 53"
proof -
  have "(2::nat) ^ 31 \<le> 2 ^ 53" by simp
  then show ?thesis using height_bound[of img] by linarith
qed

lemma width_int_bound: "int (width img) < 2 ^ 31"
  using width_bound[of img] by (metis of_nat_less_iff of_nat_numeral of_nat_power)

lemma height_int_bound: "int (height img) < 2 ^ 31"
  using height_bound[of img] by (metis of_nat_less_iff of_nat_numeral of_nat_power)

lemma nat_bound_31: "0 \<le> n \<Longrightarrow> n < 2 ^ 31 \<Longrightarrow> nat n < 2 ^ 31"
  by (simp add: nat_less_iff)

section \<open>Evaluation\<close>

lemmas lower_eval = lower_def lower_char_def char_of_def bit_Suc_0_iff

section \<open>Vertical handling: crop and rotation\<close>

lemma aspect_lt:
  assumes "width img < height img" and "H < W" and "0 < H"
  shows "real (width img) / real (height img) < of_int W / of_int H"
proof -
  have "real (width img) / real (height img) < 1" using assms by simp
  moreover have "(1::real) < of_int W / of_int H" using assms by simp
  ultimately show ?thesis by linarith
qed

lemma display_aspect_ge_1:
  assumes "H < W" and "0 < H"
  shows "1 \<le> double_round (of_int W / of_int H)"
proof -
  have "(1::real) \<le> of_int W / of_int H" using assms by simp
  then show ?thesis by (rule double_round_ge_1)
qed

lemma img_aspect_le_1:
  assumes "width img < height img"
  shows "double_round (real (width img) / real (height img)) \<le> 1"
proof (rule double_round_le_1)
  show "0 \<le> real (width img) / real (height img)" by simp
  show "real (width img) / real (height img) \<le> 1" using assms by simp
qed

lemma crop_height_bounds:
  assumes "H < W" and "0 < H"
  shows "0 \<le> crop_height img (W, H)" and "crop_height img (W, H) \<le> int (width img)"
proof -
  let ?d = "double_round (of_int W / of_int H)"
  let ?q = "double_round (real (width img) / ?d)"
  note d1 = display_aspect_ge_1[OF assms]
  have a: "0 \<le> real (width img) / ?d" using d1 by simp
  have "real (width img) / ?d \<le> real (width img) / 1"
    by (rule divide_left_mono) (use d1 in auto)
  then have b: "real (width img) / ?d \<le> real (width img)" by simp
  have q0: "0 \<le> ?q" by (rule double_round_nonneg[OF a])
  have q1: "?q \<le> real (width img)" by (rule double_round_le_nat[OF a b width_less_53])
  show "0 \<le> crop_height img (W, H)" using q0 by (simp add: py_int_def crop_height_def)
  have "\<lfloor>?q\<rfloor> \<le> int (width img)" using q1 by (simp add: floor_le_iff)
  then show "crop_height img (W, H) \<le> int (width img)"
    using q0 by (simp add: py_int_def crop_height_def)
qed

lemma crop_branch:
  assumes "width img < height img" and "H < W" and "0 < H"
  shows "handle_vertical ''crop'' (W, H) img =
     Inr (Image (width img) (nat (crop_height img (W, H)))
       (\<lambda>x y. pix img x (y + (int (height img) - crop_height img (W, H)) div 2)))"
proof -
  note b = crop_height_bounds[OF assms(2,3), of img]
  note d1 = display_aspect_ge_1[OF assms(2,3)]
  note a1 = img_aspect_le_1[OF assms(1)]
  have na: "\<not> double_round (of_int W / of_int H)
              < double_round (real (width img) / real (height img))"
    using d1 a1 by linarith
  have nz: "double_round (of_int W / of_int H) \<noteq> 0" using d1 by linarith
  have fw: "py_float (int (width img)) = real (width img)"
    by (rule py_float_nat[OF width_less_53])
  note wb = width_int_bound[of img]
  have nb: "crop_height img (W, H) < 2 ^ 31" using b(2) wb by linarith
  have ch: "py_int (double_round (real (width img) / double_round (of_int W / of_int H)))
              = crop_height img (W, H)"
    by (simp add: crop_height_def)
  show ?thesis using assms na nz b wb nb
    by (simp add: py_int_truediv_def py_truediv_def Let_def fw ch)
qed

text \<open>
  C10: when the vertical handling applies (the image is higher than wide, the display
  wider than high, the display height positive), the aspect ratio of the image is
  strictly below that of the display; so the crop takes the branch that cuts the
  height: the result has the full width of the image and at most its height.
\<close>

theorem crop_only_reduces_height:
  assumes "width img < height img" and "H < W" and "0 < H"
  shows "real (width img) / real (height img) < of_int W / of_int H \<and>
    (\<exists>img'. handle_vertical ''crop'' (W, H) img = Inr img' \<and>
        width img' = width img \<and> height img' \<le> height img)"
proof -
  note b = crop_height_bounds[OF assms(2,3), of img]
  have "crop_height img (W, H) < 2 ^ 31" using b(2) width_int_bound[of img] by linarith
  then have nb: "nat (crop_height img (W, H)) < 2 ^ 31" by (rule nat_bound_31[OF b(1)])
  have "nat (crop_height img (W, H)) \<le> height img" using b assms(1) by linarith
  then show ?thesis using aspect_lt[OF assms] nb
    unfolding crop_branch[OF assms] by simp
qed

theorem crop_only_reduces_height_witness:
  "real (width (Image 3 4 Pair)) / real (height (Image 3 4 Pair)) < of_int 800 / of_int 600 \<and>
    (\<exists>img'. handle_vertical ''crop'' (800, 600) (Image 3 4 Pair) = Inr img' \<and>
        width img' = width (Image 3 4 Pair) \<and> height img' \<le> height (Image 3 4 Pair))"
  using crop_only_reduces_height[of "Image 3 4 Pair" 600 800] by simp


text \<open>
  C9, as the code has it: when the crop applies, the full width is kept and the rows
  \<open>top\<close> to \<open>top + new_height\<close> are taken, where \<open>new_height\<close> is
  \<open>img_width / display_aspect\<close>, computed with two divisions each rounded to a
  double and then truncated (not rounded), and \<open>top\<close> is half of what is cut, rounded
  down; the margin below is the margin above, or one row more.
\<close>

theorem crop_is_centred_truncating:
  assumes "width img < height img" and "H < W" and "0 < H"
  shows "\<exists>new_height top.
     new_height =
       py_int (double_round (real (width img) / double_round (of_int W / of_int H))) \<and>
     top = (int (height img) - new_height) div 2 \<and>
     handle_vertical ''crop'' (W, H) img =
       Inr (Image (width img) (nat new_height) (\<lambda>x y. pix img x (y + top))) \<and>
     0 \<le> top \<and> 0 \<le> new_height \<and> new_height \<le> int (width img) \<and>
     (int (height img) - (top + new_height) = top \<or>
      int (height img) - (top + new_height) = top + 1)"
proof -
  note b = crop_height_bounds[OF assms(2,3), of img]
  let ?h = "int (height img)" and ?n = "crop_height img (W, H)"
  have "0 \<le> (?h - ?n) div 2" using b assms(1) by simp
  moreover have "?h - ((?h - ?n) div 2 + ?n) = (?h - ?n) div 2
     \<or> ?h - ((?h - ?n) div 2 + ?n) = (?h - ?n) div 2 + 1"
    by presburger
  ultimately show ?thesis using crop_branch[OF assms] b
    by (simp add: crop_height_def)
qed

lemma double_round_1024_600:
  "double_round (1024 / 600) = 7686143364045647 / 4503599627370496"
  using double_round_eval[of "1024 / 600" 52] by (simp add: py_round_def Let_def)

lemma double_round_768_aspect:
  "double_round (768 / (7686143364045647 / 4503599627370496)) =
     7916483719987199 / 17592186044416"
  using double_round_eval[of "768 / (7686143364045647 / 4503599627370496)" 44]
  by (simp add: py_round_def Let_def)

lemma crop_height_768_1024: "crop_height (Image 768 1024 Pair) (1024, 600) = 449"
proof -
  have "crop_height (Image 768 1024 Pair) (1024, 600) =
          py_int (double_round (768 / double_round (1024 / 600)))"
    by (simp add: crop_height_def del: divide_divide_eq_right divide_divide_eq_left)
  also have "\<dots> = py_int (7916483719987199 / 17592186044416)"
    by (simp only: double_round_1024_600 double_round_768_aspect)
  also have "\<dots> = 449" by (simp add: py_int_def)
  finally show ?thesis .
qed

theorem crop_is_centred_truncating_witness:
  "\<exists>new_height top.
     new_height = 449 \<and> top = 287 \<and>
     handle_vertical ''crop'' (1024, 600) (Image 768 1024 Pair) =
       Inr (Image 768 (nat new_height) (\<lambda>x y. (x, y + top))) \<and>
     0 \<le> top \<and> 0 \<le> new_height \<and> new_height \<le> 768 \<and>
     1024 - (top + new_height) = top + 1"
  using crop_is_centred_truncating[of "Image 768 1024 Pair" 600 1024]
    crop_height_768_1024
  by (simp add: crop_height_def)

text \<open>
  C9 as stated fails twice, on an image of 768 by 1024 for a display of 1024 by 600.
  The quotient 1024 / 600 is rounded up to a double, 768 divided by it comes out just
  below 450, and the code truncates: it keeps 449 rows, where rounding the quotient
  gives 450. The 575 rows that are cut are 287 above and 288 below.
\<close>

theorem crop_round_and_margins_counterexample:
  "handle_vertical ''crop'' (1024, 600) (Image 768 1024 Pair) =
     Inr (Image 768 449 (\<lambda>x y. (x, y + 287)))
   \<and> py_round (768 / (1024 / 600)) = 450
   \<and> py_round (double_round (768 / double_round (1024 / 600))) = 450
   \<and> (1024::int) - (287 + 449) = 288"
proof -
  have "handle_vertical ''crop'' (1024, 600) (Image 768 1024 Pair) =
     Inr (Image 768 449 (\<lambda>x y. (x, y + 287)))"
    using crop_branch[of "Image 768 1024 Pair" 600 1024]
    by (simp add: crop_height_768_1024)
  moreover have "py_round (768 / (1024 / 600)) = 450" by (simp add: py_round_def)
  moreover have "py_round (double_round (768 / double_round (1024 / 600))) = 450"
    by (simp only: double_round_1024_600 double_round_768_aspect)
       (simp add: py_round_def Let_def)
  ultimately show ?thesis by simp
qed

text \<open>
  C2: an image one pixel wide and two pixels high, each pixel holding its own
  coordinates, on a display of 2 by 1 with the policy \<open>rotate\<close>. The code turns it
  counter clockwise: the upper pixel (0, 0) ends on the left, the lower pixel (0, 1)
  on the right. Turned clockwise, the lower pixel is on the left.
\<close>

theorem rotate_is_counter_clockwise:
  "handle_vertical ''rotate'' (2, 1) (Image 1 2 Pair) =
     Inr (rotate_counter_clockwise (Image 1 2 Pair))
   \<and> pix (rotate_counter_clockwise (Image 1 2 Pair)) 0 0 = (0, 0)
   \<and> pix (rotate_counter_clockwise (Image 1 2 Pair)) 1 0 = (0, 1)
   \<and> pix (rotate_clockwise (Image 1 2 Pair)) 0 0 = (0, 1)
   \<and> pix (rotate_clockwise (Image 1 2 Pair)) 1 0 = (0, 0)"
  by (simp add: pil_rotate_90_expand_def rotate_counter_clockwise_def rotate_clockwise_def)

section \<open>The size of the returned image\<close>

lemma pil_resize_size:
  "pil_resize f img (w, h) = Inr r \<Longrightarrow>
     int (width r) = w \<and> int (height r) = h \<and> 0 < w \<and> 0 < h \<and> w < 2 ^ 31 \<and> h < 2 ^ 31"
  by (auto split: if_splits)

text \<open>Two operations in a row, each rounded to a double.\<close>

lemma two_roundings:
  assumes "0 < x" and "0 < y"
  shows "x * y * (1 - 1 / 2 ^ 53) ^ 2 \<le> double_round (double_round x * y)"
    and "double_round (double_round x * y) \<le> x * y * (1 + 1 / 2 ^ 53) ^ 2"
proof -
  let ?c = "double_round x"
  have c0: "0 < ?c" by (rule double_round_pos[OF assms(1)])
  have cy: "0 < ?c * y" using c0 assms(2) by simp
  have lo: "(0::real) \<le> 1 - 1 / 2 ^ 53" by simp
  have "x * y * (1 - 1 / 2 ^ 53) ^ 2 = (x * (1 - 1 / 2 ^ 53)) * y * (1 - 1 / 2 ^ 53)"
    by (simp add: power2_eq_square algebra_simps)
  also have "\<dots> \<le> ?c * y * (1 - 1 / 2 ^ 53)"
    by (intro mult_right_mono double_round_lower[OF assms(1)] lo) (use assms(2) in simp)
  also have "\<dots> \<le> double_round (?c * y)" by (rule double_round_lower[OF cy])
  finally show "x * y * (1 - 1 / 2 ^ 53) ^ 2 \<le> double_round (?c * y)" .
  have hi: "(0::real) \<le> 1 + 1 / 2 ^ 53" by simp
  have "double_round (?c * y) \<le> ?c * y * (1 + 1 / 2 ^ 53)" by (rule double_round_upper[OF cy])
  also have "\<dots> \<le> (x * (1 + 1 / 2 ^ 53)) * y * (1 + 1 / 2 ^ 53)"
    by (intro mult_right_mono double_round_upper[OF assms(1)] hi) (use assms(2) in simp)
  also have "\<dots> = x * y * (1 + 1 / 2 ^ 53) ^ 2"
    by (simp add: power2_eq_square algebra_simps)
  finally show "double_round (?c * y) \<le> x * y * (1 + 1 / 2 ^ 53) ^ 2" .
qed

text \<open>
  Rounded to a whole number below \<open>2 ^ 31\<close>, the result of two rounded operations is
  less than one away from the exact value.
\<close>

lemma round_close:
  assumes "0 < tv" and "tv * (1 - 1 / 2 ^ 53) ^ 2 \<le> p" and "p \<le> tv * (1 + 1 / 2 ^ 53) ^ 2"
    and "py_round p < 2 ^ 31"
  shows "\<bar>of_int (py_round p) - tv\<bar> < 1"
proof -
  have r: "p - 1 / 2 \<le> of_int (py_round p)" "of_int (py_round p) \<le> p + 1 / 2"
    by (rule py_round_bounds)+
  have "py_round p \<le> 2 ^ 31 - 1" using assms(4) by simp
  then have "(of_int (py_round p) :: real) \<le> of_int (2 ^ 31 - 1)" by (simp only: of_int_le_iff)
  then have n: "(of_int (py_round p) :: real) \<le> 2147483647" by simp
  have a: "tv * (1 - 1 / 2 ^ 53) ^ 2 \<le> p" "p \<le> tv * (1 + 1 / 2 ^ 53) ^ 2"
    using assms(2,3) by auto
  show ?thesis using r n a assms(1) by (simp add: power2_eq_square)
qed


lemma py_float_int: "0 \<le> n \<Longrightarrow> n < 2 ^ 31 \<Longrightarrow> py_float n = of_int n"
proof -
  assume a: "0 \<le> n" "n < 2 ^ 31"
  then have "nat n < 2 ^ 31" by (simp add: nat_less_iff)
  moreover have "(2::nat) ^ 31 \<le> 2 ^ 53" by simp
  ultimately have "nat n < 2 ^ 53" by linarith
  from py_float_nat[OF this] a(1) show ?thesis by simp
qed

lemma int_real_bound: "(n::int) < 2 ^ 31 \<Longrightarrow> (of_int n :: real) \<le> 2147483647"
proof -
  assume "n < 2 ^ 31"
  then have "n \<le> 2147483647" by simp
  then have "(of_int n :: real) \<le> of_int 2147483647" by (simp only: of_int_le_iff)
  then show ?thesis by simp
qed

lemma close_eq:
  fixes tv Hh :: real
  assumes "tv * (1 - 1 / 2 ^ 53) \<le> Hh * (1 + 1 / 2 ^ 53)"
    and "Hh * (1 - 1 / 2 ^ 53) \<le> tv * (1 + 1 / 2 ^ 53)"
    and "Hh \<le> 2147483647" and "0 < Hh"
  shows "\<bar>Hh - tv\<bar> < 1"
  using assms by (simp add: algebra_simps)

text \<open>
  The size \<open>ImageOps.contain\<close> computes, when the resize accepts it: one side is the
  display's, the other is no larger and is less than one pixel away from the side
  that keeps the aspect ratio of the image exactly.
\<close>

lemma contain_size_fits:
  assumes W0: "0 < W" and H0: "0 < H" and c: "contain_size img (W, H) = Inr (w', h')"
    and w'0: "0 < w'" and w'b: "w' < 2 ^ 31" and h'0: "0 < h'" and h'b: "h' < 2 ^ 31"
  shows "0 < width img \<and> 0 < height img \<and>
     ((w' = W \<and> h' \<le> H \<and>
       \<bar>of_int h' - real (height img) * of_int W / real (width img)\<bar> < 1) \<or>
      (h' = H \<and> w' \<le> W \<and>
       \<bar>of_int w' - real (width img) * of_int H / real (height img)\<bar> < 1))"
proof -
  let ?w = "real (width img)" and ?h = "real (height img)"
  let ?a = "double_round (?w / ?h)" and ?b = "double_round (of_int W / of_int H)"
  have ih: "height img \<noteq> 0" using c by (auto simp: py_int_truediv_def split: if_splits)
  then have h0: "0 < ?h" by simp
  have WH: "(0::real) < of_int W / of_int H" using W0 H0 by simp
  have b0: "0 < ?b" by (rule double_round_pos[OF WH])
  have Wr: "(0::real) < of_int W" and Hr: "(0::real) < of_int H" using W0 H0 by auto
  consider "?a = ?b" | "?b < ?a" | "?a < ?b" by linarith
  then show ?thesis
  proof cases
    case 1
    then have eq: "w' = W" "h' = H" using c ih H0 by (auto simp: py_int_truediv_def)
    have iw: "width img \<noteq> 0"
    proof
      assume "width img = 0"
      then have "?a = 0" by simp
      with 1 b0 show False by simp
    qed
    then have w0: "0 < ?w" by simp
    have x1: "0 < ?w / ?h" using w0 h0 by simp
    let ?tv = "?h * of_int W / ?w"
    have k: "(0::real) \<le> ?h * of_int H / ?w" using w0 h0 Hr by simp
    have "of_int W / of_int H * (1 - 1 / 2 ^ 53) \<le> ?w / ?h * (1 + 1 / 2 ^ 53)"
      using double_round_lower[OF WH] double_round_upper[OF x1] 1 by linarith
    from mult_right_mono[OF this k]
    have A: "?tv * (1 - 1 / 2 ^ 53) \<le> of_int H * (1 + 1 / 2 ^ 53)"
      using w0 h0 Hr by (simp add: field_simps)
    have "?w / ?h * (1 - 1 / 2 ^ 53) \<le> of_int W / of_int H * (1 + 1 / 2 ^ 53)"
      using double_round_lower[OF x1] double_round_upper[OF WH] 1 by linarith
    from mult_right_mono[OF this k]
    have B: "of_int H * (1 - 1 / 2 ^ 53) \<le> ?tv * (1 + 1 / 2 ^ 53)"
      using w0 h0 Hr by (simp add: field_simps)
    have Hb: "(of_int H :: real) \<le> 2147483647" using h'b eq by (simp add: int_real_bound)
    have "\<bar>of_int H - ?tv\<bar> < 1" by (rule close_eq[OF A B Hb Hr])
    then show ?thesis using eq iw ih by simp
  next
    case 2
    have iw: "width img \<noteq> 0" using c 2 ih H0
      by (auto simp: py_int_truediv_def split: if_splits)
    then have w0: "0 < ?w" by simp
    have fW: "py_float W = of_int W" using c 2 ih iw H0 W0 w'b
      by (intro py_float_int) (auto simp: py_int_truediv_def)
    have eq: "w' = W" "h' = py_round (double_round (double_round (?h / ?w) * of_int W))"
      using c 2 ih iw H0 fW by (auto simp: py_int_truediv_def py_mul_def)
    have x: "0 < ?h / ?w" using w0 h0 by simp
    note t = two_roundings[OF x Wr]
    have tv0: "0 < ?h / ?w * of_int W" by (rule mult_pos_pos[OF x Wr])
    have "\<bar>of_int h' - ?h / ?w * of_int W\<bar> < 1"
      unfolding eq(2) by (rule round_close[OF tv0 t]) (use h'b eq(2) in simp)
    then have cl: "\<bar>of_int h' - ?h * of_int W / ?w\<bar> < 1" by simp
    have "of_int W / of_int H < ?w / ?h"
      by (rule double_round_less_imp[OF _ 2]) simp
    then have "?h * of_int W / ?w < of_int H" using w0 h0 Hr by (simp add: field_simps)
    with cl have "(of_int h' :: real) < of_int H + 1" by linarith
    then have "(of_int h' :: real) < of_int (H + 1)" by simp
    then have "h' < H + 1" by (simp only: of_int_less_iff)
    then show ?thesis using eq(1) cl iw ih by simp
  next
    case 3
    have fH: "py_float H = of_int H" using c 3 ih H0 h'b
      by (intro py_float_int) (auto simp: py_int_truediv_def)
    have eq: "h' = H" "w' = py_round (double_round (double_round (?w / ?h) * of_int H))"
      using c 3 ih H0 fH by (auto simp: py_int_truediv_def py_mul_def)
    have iw: "width img \<noteq> 0"
    proof
      assume "width img = 0"
      then have "w' = 0" using eq(2) by (simp add: py_round_def)
      with w'0 show False by simp
    qed
    then have w0: "0 < ?w" by simp
    have x: "0 < ?w / ?h" using w0 h0 by simp
    note t = two_roundings[OF x Hr]
    have tv0: "0 < ?w / ?h * of_int H" by (rule mult_pos_pos[OF x Hr])
    have "\<bar>of_int w' - ?w / ?h * of_int H\<bar> < 1"
      unfolding eq(2) by (rule round_close[OF tv0 t]) (use w'b eq(2) in simp)
    then have cl: "\<bar>of_int w' - ?w * of_int H / ?h\<bar> < 1" by simp
    have "?w / ?h < of_int W / of_int H"
      by (rule double_round_less_imp[OF _ 3]) (use W0 H0 in simp)
    then have "?w * of_int H / ?h < of_int W" using w0 h0 Hr by (simp add: field_simps)
    with cl have "(of_int w' :: real) < of_int W + 1" by linarith
    then have "(of_int w' :: real) < of_int (W + 1)" by simp
    then have "w' < W + 1" by (simp only: of_int_less_iff)
    then show ?thesis using eq(1) cl iw ih by simp
  qed
qed

lemma get_image_prepared:
  assumes "get_image fuel env settings d st = Some (Inr img, st')"
  shows "\<exists>local_path src.
     prepare_image env settings d local_path (local_files st') = Inr src \<and>
     final_resize (s_padImage settings) (lanczos env) d src = Inr img"
  using assms
  by (auto simp: get_image_def get_image_try_def render_file_def Let_def
      split: option.splits sum.splits if_splits prod.splits)

text \<open>
  C8, as the code has it. The image a call returns on a display of positive width and
  height is the result of the final resize of the image \<open>src\<close> that was decoded,
  oriented and handled as a vertical image. With \<open>padImage\<close> off its size is exactly
  that of the display. With \<open>padImage\<close> on nothing is padded: one side is the
  display's, the other side is no larger and is less than one pixel away from the
  side that keeps the aspect ratio of \<open>src\<close> exactly; so the size is that of the
  display only when the aspect ratios agree up to that rounding.
\<close>

theorem get_image_size:
  assumes "get_image fuel env settings (W, H) st = Some (Inr img, st')"
    and "0 < W" and "0 < H"
  shows "\<exists>local_path src.
     prepare_image env settings (W, H) local_path (local_files st') = Inr src \<and>
     final_resize (s_padImage settings) (lanczos env) (W, H) src = Inr img \<and>
     (\<not> s_padImage settings \<longrightarrow> int (width img) = W \<and> int (height img) = H) \<and>
     (s_padImage settings \<longrightarrow>
        0 < width img \<and> 0 < height img \<and> 0 < width src \<and> 0 < height src \<and>
        ((int (width img) = W \<and> int (height img) \<le> H \<and>
          \<bar>real (height img) - real (height src) * of_int W / real (width src)\<bar> < 1) \<or>
         (int (height img) = H \<and> int (width img) \<le> W \<and>
          \<bar>real (width img) - real (width src) * of_int H / real (height src)\<bar> < 1)))"
proof -
  obtain local_path src where
    p: "prepare_image env settings (W, H) local_path (local_files st') = Inr src"
    and r: "final_resize (s_padImage settings) (lanczos env) (W, H) src = Inr img"
    using get_image_prepared[OF assms(1)] by blast
  have sz: "(\<not> s_padImage settings \<longrightarrow> int (width img) = W \<and> int (height img) = H) \<and>
     (s_padImage settings \<longrightarrow>
        0 < width img \<and> 0 < height img \<and> 0 < width src \<and> 0 < height src \<and>
        ((int (width img) = W \<and> int (height img) \<le> H \<and>
          \<bar>real (height img) - real (height src) * of_int W / real (width src)\<bar> < 1) \<or>
         (int (height img) = H \<and> int (width img) \<le> W \<and>
          \<bar>real (width img) - real (width src) * of_int H / real (height src)\<bar> < 1)))"
  proof (cases "s_padImage settings")
    case False
    then show ?thesis using r pil_resize_size[of "lanczos env" src W H img]
      by (simp add: final_resize_def del: pil_resize.simps)
  next
    case True
    then obtain w h where c: "contain_size src (W, H) = Inr (w, h)"
      and q: "pil_resize (lanczos env) src (w, h) = Inr img"
      using r by (auto simp: final_resize_def pil_contain_def
          simp del: pil_resize.simps contain_size.simps split: sum.splits)
    note s = pil_resize_size[OF q]
    have w: "w = int (width img)" and h: "h = int (height img)" using s by auto
    have "0 < w" "w < 2 ^ 31" "0 < h" "h < 2 ^ 31" using s by auto
    from contain_size_fits[OF assms(2,3) c this]
    have "0 < width src \<and> 0 < height src \<and>
     ((int (width img) = W \<and> int (height img) \<le> H \<and>
       \<bar>real (height img) - real (height src) * of_int W / real (width src)\<bar> < 1) \<or>
      (int (height img) = H \<and> int (width img) \<le> W \<and>
       \<bar>real (width img) - real (width src) * of_int H / real (height src)\<bar> < 1))"
      unfolding w h by simp
    moreover have "0 < width img" "0 < height img" using s by auto
    ultimately show ?thesis using True by blast
  qed
  show ?thesis using p r sz by blast
qed

section \<open>A request on the small server\<close>

lemma double_round_8_7: "double_round (8 / 7) = 2573485501354569 / 2251799813685248"
  using double_round_eval[of "8 / 7" 52] by (simp add: py_round_def Let_def)

lemma double_round_4_3: "double_round (4 / 3) = 6004799503160661 / 4503599627370496"
  using double_round_eval[of "4 / 3" 52] by (simp add: py_round_def Let_def)

lemma double_round_3_4: "double_round (3 / 4) = 3 / 4"
  using double_round_eval[of "3 / 4" 53] by (simp add: py_round_def Let_def)

lemma double_round_800: "double_round 800 = 800"
  using double_round_of_nat[of 800] by simp

lemma double_round_600: "double_round 600 = 600"
  using double_round_of_nat[of 600] by simp

lemma example_contain_size:
  "contain_size (Image 400 300 (\<lambda>x y. 0::nat)) (800, 700) = Inr (800, 600)"
  by (simp add: py_int_truediv_def py_mul_def py_float_def double_round_8_7
      double_round_4_3 double_round_3_4 double_round_800 double_round_600 py_round_def)

lemmas get_image_eval =
  get_image_def get_image_try_def select_image_def connect_ftp_def close_ftp_def
  download_image_def download_image_try_def create_scratch_def register_scratch_def
  retrbinary_def scratch_suffix_def splitext_ext_def render_file_def prepare_image_def
  final_resize_def pil_contain_def quoted_def

lemmas example_defs =
  example_env_def example_settings_def example_server_def fresh_plugin_def

lemma example_get_image:
  "get_image fuel example_env example_settings (800, 700) fresh_plugin =
     Some (Inr (Image 800 600 (\<lambda>x y. 0)),
       \<lparr>ftp = Some (Connected ''/''), temp_files = [''/tmp/tmpq.JPG''],
        local_files = [''/tmp/tmpq.JPG'' \<mapsto> ''JFIF''], events = []\<rparr>)"
  by (simp add: get_image_eval example_defs example_contain_size
      del: contain_size.simps)

lemma example_get_image_stretched:
  "get_image fuel example_env (example_settings\<lparr>s_padImage := False\<rparr>) (800, 700) fresh_plugin =
     Some (Inr (Image 800 700 (\<lambda>x y. 0)),
       \<lparr>ftp = Some (Connected ''/''), temp_files = [''/tmp/tmpq.JPG''],
        local_files = [''/tmp/tmpq.JPG'' \<mapsto> ''JFIF''], events = []\<rparr>)"
  by (simp add: get_image_eval example_defs)

lemma example_prepare_image:
  "prepare_image example_env settings (800, 700) ''/tmp/tmpq.JPG''
     [''/tmp/tmpq.JPG'' \<mapsto> ''JFIF''] = Inr src \<longleftrightarrow> src = Image 400 300 (\<lambda>x y. 0)"
  by (auto simp: prepare_image_def example_env_def)

theorem get_image_size_witness:
  "get_image 0 example_env example_settings (800, 700) fresh_plugin =
     Some (Inr (Image 800 600 (\<lambda>x y. 0)),
       \<lparr>ftp = Some (Connected ''/''), temp_files = [''/tmp/tmpq.JPG''],
        local_files = [''/tmp/tmpq.JPG'' \<mapsto> ''JFIF''], events = []\<rparr>) \<and>
   s_padImage example_settings \<and>
   prepare_image example_env example_settings (800, 700) ''/tmp/tmpq.JPG''
     [''/tmp/tmpq.JPG'' \<mapsto> ''JFIF''] = Inr (Image 400 300 (\<lambda>x y. 0)) \<and>
   int (width (Image 800 600 (\<lambda>x y. 0::nat))) = 800 \<and>
   int (height (Image 800 600 (\<lambda>x y. 0::nat))) \<le> 700 \<and>
   \<bar>real (height (Image 800 600 (\<lambda>x y. 0::nat))) -
     real (height (Image 400 300 (\<lambda>x y. 0::nat))) * of_int 800 /
       real (width (Image 400 300 (\<lambda>x y. 0::nat)))\<bar> < 1 \<and>
   get_image 0 example_env (example_settings\<lparr>s_padImage := False\<rparr>) (800, 700) fresh_plugin =
     Some (Inr (Image 800 700 (\<lambda>x y. 0)),
       \<lparr>ftp = Some (Connected ''/''), temp_files = [''/tmp/tmpq.JPG''],
        local_files = [''/tmp/tmpq.JPG'' \<mapsto> ''JFIF''], events = []\<rparr>) \<and>
   \<not> s_padImage (example_settings\<lparr>s_padImage := False\<rparr>) \<and>
   int (width (Image 800 700 (\<lambda>x y. 0::nat))) = 800 \<and>
   int (height (Image 800 700 (\<lambda>x y. 0::nat))) = 700"
  using get_image_size[OF example_get_image[of 0]]
    get_image_size[OF example_get_image_stretched[of 0]]
    example_get_image[of 0] example_get_image_stretched[of 0]
  by (simp add: example_settings_def example_prepare_image)

text \<open>
  C8 as stated fails with \<open>padImage\<close> on: an image of 400 by 300 on a display of
  800 by 700 is returned with the size 800 by 600.
\<close>

theorem get_image_size_counterexample:
  "s_padImage example_settings \<and>
   returned_size (get_image 0 example_env example_settings (800, 700) fresh_plugin)
     = Some (800, 600)"
  by (simp add: example_get_image returned_size_def) (simp add: example_settings_def)

section \<open>The failures of the selection\<close>

lemmas walk_eval =
  plugin_list_images_recursive_def list_images_call_def list_images_try_def
  walk_and_restore_def walk_entry_def probe_and_recurse_def
  ftp_pwd_def ftp_cwd_def ftp_mlsd_def ftp_nlst_def rstrip_slash_def
  endswith_any_def endswith_def image_exts_def

lemma example_empty_folder:
  "plugin_list_images_recursive (Suc 0) example_env ''/e''
      \<lparr>ftp = Some (Connected ''/''), temp_files = [], local_files = Map.empty, events = []\<rparr> =
   Some (Inr [], \<lparr>ftp = Some (Connected ''/''), temp_files = [], local_files = Map.empty, events = []\<rparr>)"
  by (simp add: walk_eval example_defs)

lemma example_connect:
  "connect_ftp example_env (''nas'', 21, ''anonymous'', [], False, True) fresh_plugin =
     (Inr (), \<lparr>ftp = Some (Connected ''/''), temp_files = [], local_files = Map.empty, events = []\<rparr>)"
  by (simp add: connect_ftp_def close_ftp_def example_defs)

text \<open>
  C3, as the code has it: once the session is established, random mode with an
  enumeration that returns no image, and no random mode with no selected image (absent
  or empty), both end in a \<open>RuntimeError\<close>: the \<open>FileNotFoundError\<close> and the
  \<open>ValueError\<close> raised by the selection are caught by the \<open>except Exception\<close> of
  \<open>_get_image\<close>, and only their messages are kept, after "Failed to get image: ".
\<close>

theorem selection_errors_are_wrapped:
  assumes "s_server settings = Some server" and "server \<noteq> []"
    and "connect_ftp env (server, s_port settings, s_username settings, s_password settings,
            s_use_tls settings, s_passive settings) st = (Inr (), st1)"
  shows "(s_random_mode settings \<and>
            plugin_list_images_recursive fuel env (s_current_path settings) st1 = Some (Inr [], st2)
          \<longrightarrow> get_image fuel env settings dimensions st =
                Some (Inl (RuntimeError (''Failed to get image: '' @
                   ''No images found under folder '' @ quoted (s_current_path settings))), st2)) \<and>
         (\<not> s_random_mode settings \<and>
            (s_selected_image settings = None \<or> s_selected_image settings = Some [])
          \<longrightarrow> get_image fuel env settings dimensions st =
                Some (Inl (RuntimeError (''Failed to get image: '' @
                   ''No image selected and random mode is disabled'')), st1))"
  using assms by (auto simp: get_image_def get_image_try_def select_image_def)

theorem selection_errors_are_wrapped_witness:
  "get_image (Suc 0) example_env empty_folder_settings (2, 1) fresh_plugin =
     Some (Inl (RuntimeError (''Failed to get image: '' @
        ''No images found under folder '' @ quoted ''/e'')),
       \<lparr>ftp = Some (Connected ''/''), temp_files = [], local_files = Map.empty, events = []\<rparr>) \<and>
   get_image (Suc 0) example_env nothing_selected_settings (2, 1) fresh_plugin =
     Some (Inl (RuntimeError (''Failed to get image: '' @
        ''No image selected and random mode is disabled'')),
       \<lparr>ftp = Some (Connected ''/''), temp_files = [], local_files = Map.empty, events = []\<rparr>)"
  using selection_errors_are_wrapped[of empty_folder_settings "''nas''" example_env fresh_plugin
      "\<lparr>ftp = Some (Connected ''/''), temp_files = [], local_files = Map.empty, events = []\<rparr>" "Suc 0"
      "\<lparr>ftp = Some (Connected ''/''), temp_files = [], local_files = Map.empty, events = []\<rparr>" "(2, 1)"]
    selection_errors_are_wrapped[of nothing_selected_settings "''nas''" example_env fresh_plugin
      "\<lparr>ftp = Some (Connected ''/''), temp_files = [], local_files = Map.empty, events = []\<rparr>" "Suc 0"
      "\<lparr>ftp = Some (Connected ''/''), temp_files = [], local_files = Map.empty, events = []\<rparr>" "(2, 1)"]
    example_empty_folder example_connect
  by (simp add: empty_folder_settings_def nothing_selected_settings_def example_settings_def)

text \<open>
  C3 as stated fails: on the empty folder \<open>/e\<close> in random mode, and with nothing
  selected, what \<open>_get_image\<close> raises is a \<open>RuntimeError\<close>.
\<close>

theorem selection_errors_counterexample:
  "raised (get_image (Suc 0) example_env empty_folder_settings (2, 1) fresh_plugin) =
     Some (RuntimeError (''Failed to get image: '' @
        ''No images found under folder '' @ quoted ''/e'')) \<and>
   raised (get_image (Suc 0) example_env nothing_selected_settings (2, 1) fresh_plugin) =
     Some (RuntimeError (''Failed to get image: '' @
        ''No image selected and random mode is disabled''))"
  by (simp add: raised_def get_image_eval walk_eval example_defs
      empty_folder_settings_def nothing_selected_settings_def)

section \<open>Scratch files and the session\<close>








lemma download_image_registers:
  assumes "download_image env remote_path st = (r, st')"
  shows "dom (local_files st') - dom (local_files st) \<subseteq> set (temp_files st')"
    and "set (temp_files st) \<subseteq> set (temp_files st')"
  using assms
  by (auto simp: download_image_def download_image_try_def create_scratch_def
      register_scratch_def retrbinary_def Let_def
      split: option.splits sum.splits prod.splits ftp_conn.splits if_splits)











text \<open>
  C4: in the plugin the path is registered before the transfer
  (\<open>download_image_registers\<close>). The blueprint registers nothing: when the transfer
  of \<open>/b/c.png\<close> breaks, \<open>_download_image\<close> raises, \<open>local_path\<close> of
  \<open>preview_image\<close> is still \<open>None\<close>, the \<open>finally\<close> block removes nothing, and
  the scratch file with the two bytes received stays on the disk.
\<close>

theorem preview_leaves_scratch_file:
  "preview_image example_env broken_preview_request Map.empty =
     (Error ''Failed to download image /b/c.png: 426 Transfer aborted.'' 500,
      [''/tmp/tmpq.png'' \<mapsto> ''PN''])"
  by (simp add: preview_image_def api_download_image_def preview_finally_def retrbinary_def
      scratch_suffix_def splitext_ext_def example_defs broken_preview_request_def)

section \<open>Directory listings\<close>

lemma mlsd_classify_inv:
  assumes "mlsd_classify path entries ds fs = (ds', fs')"
    and "\<forall>x \<in> set ds \<union> set fs. e_name x \<noteq> ''.'' \<and> e_name x \<noteq> ''..''"
    and "\<forall>x \<in> set fs. endswith_any (lower (e_name x)) image_exts"
  shows "(\<forall>x \<in> set ds' \<union> set fs'. e_name x \<noteq> ''.'' \<and> e_name x \<noteq> ''..'') \<and>
         (\<forall>x \<in> set fs'. endswith_any (lower (e_name x)) image_exts)"
  using assms
proof (induction entries arbitrary: ds fs)
  case Nil
  then show ?case by simp
next
  case (Cons entry entries)
  obtain name facts where e: "entry = (name, facts)" by (cases entry)
  let ?t = "case map_of facts ''type'' of None \<Rightarrow> [] | Some t \<Rightarrow> t"
  let ?full = "replace_backslash (os_path_join path name)"
  let ?d = "\<lparr>e_name = name, e_path = ?full, e_type = ''dir'', e_size = None\<rparr>"
  let ?f = "\<lparr>e_name = name, e_path = ?full, e_type = ''file'',
             e_size = Some (case map_of facts ''size'' of None \<Rightarrow> ''0'' | Some s \<Rightarrow> s)\<rparr>"
  consider (dots) "name = ''.'' \<or> name = ''..''"
    | (d) "\<not> (name = ''.'' \<or> name = ''..'')" "?t = ''dir''"
    | (f) "\<not> (name = ''.'' \<or> name = ''..'')" "?t \<noteq> ''dir''"
          "?t = ''file''" "endswith_any (lower name) image_exts"
    | (o) "\<not> (name = ''.'' \<or> name = ''..'')" "?t \<noteq> ''dir''"
          "\<not> (?t = ''file'' \<and> endswith_any (lower name) image_exts)"
    by blast
  then show ?case
  proof cases
    case dots
    then have "mlsd_classify path entries ds fs = (ds', fs')"
      using Cons.prems(1) e by simp
    then show ?thesis by (rule Cons.IH) (rule Cons.prems)+
  next
    case d
    then have "mlsd_classify path entries (ds @ [?d]) fs = (ds', fs')"
      using Cons.prems(1) e by (simp add: Let_def)
    moreover have "\<forall>x \<in> set (ds @ [?d]) \<union> set fs. e_name x \<noteq> ''.'' \<and> e_name x \<noteq> ''..''"
      using d(1) Cons.prems(2) by simp
    ultimately show ?thesis using Cons.prems(3) by (rule Cons.IH)
  next
    case f
    then have "mlsd_classify path entries ds (fs @ [?f]) = (ds', fs')"
      using Cons.prems(1) e by (simp add: Let_def)
    moreover have "\<forall>x \<in> set ds \<union> set (fs @ [?f]). e_name x \<noteq> ''.'' \<and> e_name x \<noteq> ''..''"
      using f(1) Cons.prems(2) by simp
    moreover have "\<forall>x \<in> set (fs @ [?f]). endswith_any (lower (e_name x)) image_exts"
      using f(4) Cons.prems(3) by simp
    ultimately show ?thesis by (rule Cons.IH)
  next
    case o
    then have "mlsd_classify path entries ds fs = (ds', fs')"
      using Cons.prems(1) e by (auto simp add: Let_def split: if_splits)
    then show ?thesis by (rule Cons.IH) (rule Cons.prems)+
  qed
qed

lemma nlst_classify_dots:
  "name = ''.'' \<or> name = ''..'' \<Longrightarrow>
   nlst_classify srv path (name # names) ds fs wd = nlst_classify srv path names ds fs wd"
  by simp

lemma nlst_classify_step:
  assumes "\<not> (name = ''.'' \<or> name = ''..'')"
    and "nlst_classify srv path (name # names) ds fs wd = (Inr (ds', fs'), wd')"
  shows "\<exists>ds1 fs1 wd1.
           nlst_classify srv path names ds1 fs1 wd1 = (Inr (ds', fs'), wd') \<and>
           (\<forall>x \<in> set ds1. x \<in> set ds \<or> e_name x = name) \<and>
           (\<forall>x \<in> set fs1. x \<in> set fs \<or>
                (e_name x = name \<and> endswith_any (lower name) image_exts))"
proof -
  let ?full = "replace_backslash (os_path_join path name)"
  obtain r wd1 where p: "probe_directory srv ?full wd = (r, wd1)"
    by (cases "probe_directory srv ?full wd")
  show ?thesis
  proof (cases r)
    case (Inr u)
    have "nlst_classify srv path names
            (ds @ [\<lparr>e_name = name, e_path = ?full, e_type = ''dir'', e_size = None\<rparr>]) fs wd1
          = (Inr (ds', fs'), wd')"
      using assms p Inr by (simp add: Let_def)
    then show ?thesis by fastforce
  next
    case (Inl e)
    then have perm: "is_error_perm e"
      using assms p by (auto simp: Let_def split: if_splits)
    show ?thesis
    proof (cases "endswith_any (lower name) image_exts")
      case True
      have "nlst_classify srv path names ds
              (fs @ [\<lparr>e_name = name, e_path = ?full, e_type = ''file'',
                       e_size = Some ''unknown''\<rparr>]) wd1
            = (Inr (ds', fs'), wd')"
        using assms p Inl perm True by (simp add: Let_def)
      then show ?thesis using True by fastforce
    next
      case False
      have "nlst_classify srv path names ds fs wd1 = (Inr (ds', fs'), wd')"
        using assms p Inl perm False by (simp add: Let_def)
      then show ?thesis by fastforce
    qed
  qed
qed

lemma nlst_classify_inv:
  assumes "nlst_classify srv path names ds fs wd = (Inr (ds', fs'), wd')"
    and "\<forall>x \<in> set ds \<union> set fs. e_name x \<noteq> ''.'' \<and> e_name x \<noteq> ''..''"
    and "\<forall>x \<in> set fs. endswith_any (lower (e_name x)) image_exts"
  shows "(\<forall>x \<in> set ds' \<union> set fs'. e_name x \<noteq> ''.'' \<and> e_name x \<noteq> ''..'') \<and>
         (\<forall>x \<in> set fs'. endswith_any (lower (e_name x)) image_exts)"
  using assms
proof (induction names arbitrary: ds fs wd)
  case Nil
  then show ?case by simp
next
  case (Cons name names)
  show ?case
  proof (cases "name = ''.'' \<or> name = ''..''")
    case True
    have "nlst_classify srv path names ds fs wd = (Inr (ds', fs'), wd')"
      using Cons.prems(1) unfolding nlst_classify_dots[OF True] .
    then show ?thesis by (rule Cons.IH) (rule Cons.prems)+
  next
    case False
    from nlst_classify_step[OF False Cons.prems(1)]
    obtain ds1 fs1 wd1 where
      rest: "nlst_classify srv path names ds1 fs1 wd1 = (Inr (ds', fs'), wd')"
      and d: "\<forall>x \<in> set ds1. x \<in> set ds \<or> e_name x = name"
      and f: "\<forall>x \<in> set fs1. x \<in> set fs \<or>
                (e_name x = name \<and> endswith_any (lower name) image_exts)"
      by blast
    have "\<forall>x \<in> set ds1 \<union> set fs1. e_name x \<noteq> ''.'' \<and> e_name x \<noteq> ''..''"
      using d f False Cons.prems(2) by blast
    moreover have "\<forall>x \<in> set fs1. endswith_any (lower (e_name x)) image_exts"
      using f Cons.prems(3) by blast
    ultimately show ?thesis using rest Cons.IH by blast
  qed
qed

lemma list_directory_try_classified:
  assumes "list_directory_try srv path wd = (Inr result, wd')"
  shows "\<exists>ds fs. l_directories result = sort_key (\<lambda>x. lower (e_name x)) ds \<and>
                 l_files result = sort_key (\<lambda>x. lower (e_name x)) fs \<and>
                 (\<forall>x \<in> set ds \<union> set fs. e_name x \<noteq> ''.'' \<and> e_name x \<noteq> ''..'') \<and>
                 (\<forall>x \<in> set fs. endswith_any (lower (e_name x)) image_exts)"
proof -
  obtain wd1 where c: "ftp_cwd srv wd path = Inr wd1"
    using assms by (auto simp: list_directory_try_def split: sum.splits)
  define classified where "classified =
          (case ftp_mlsd srv wd1 of
             Inr entries \<Rightarrow> (Inr (mlsd_classify path entries [] []), wd1)
           | Inl e \<Rightarrow>
               if is_AttributeError e \<or> is_error_perm e then
                 (case ftp_nlst srv wd1 of
                    Inl e' \<Rightarrow> (Inl e', wd1)
                  | Inr names \<Rightarrow> nlst_classify srv path names [] [] wd1)
               else (Inl e, wd1))"
  have r: "(case classified of
          (Inl e, wd2) \<Rightarrow> (Inl e, wd2)
        | (Inr (directories, files), wd2) \<Rightarrow>
            (Inr \<lparr>l_current_path = path,
                  l_parent_path = (if path \<noteq> ''/'' then os_path_dirname path else ''/''),
                  l_directories = sort_key (\<lambda>x. lower (e_name x)) directories,
                  l_files = sort_key (\<lambda>x. lower (e_name x)) files\<rparr>, wd2)) = (Inr result, wd')"
    using assms c by (simp add: list_directory_try_def classified_def Let_def)
  then obtain ds fs where cl: "classified = (Inr (ds, fs), wd')"
    and res: "l_directories result = sort_key (\<lambda>x. lower (e_name x)) ds"
       "l_files result = sort_key (\<lambda>x. lower (e_name x)) fs"
    by (auto split: prod.splits sum.splits)
  have "(\<forall>x \<in> set ds \<union> set fs. e_name x \<noteq> ''.'' \<and> e_name x \<noteq> ''..'') \<and>
        (\<forall>x \<in> set fs. endswith_any (lower (e_name x)) image_exts)"
  proof (cases "ftp_mlsd srv wd1")
    case (Inr entries)
    then have "mlsd_classify path entries [] [] = (ds, fs)"
      using cl by (simp add: classified_def)
    from mlsd_classify_inv[OF this] show ?thesis by simp
  next
    case (Inl e)
    then obtain names where "nlst_classify srv path names [] [] wd1 = (Inr (ds, fs), wd')"
      using cl by (auto simp: classified_def split: if_splits sum.splits)
    from nlst_classify_inv[OF this] show ?thesis by simp
  qed
  then show ?thesis using res by blast
qed

lemma list_directory_result:
  assumes "list_directory srv path wd = (Inr result, wd')"
  shows "sorted (map (\<lambda>x. lower (e_name x)) (l_directories result)) \<and>
         sorted (map (\<lambda>x. lower (e_name x)) (l_files result)) \<and>
         (\<forall>x \<in> set (l_directories result) \<union> set (l_files result).
             e_name x \<noteq> ''.'' \<and> e_name x \<noteq> ''..'') \<and>
         (\<forall>x \<in> set (l_files result). endswith_any (lower (e_name x)) image_exts)"
proof -
  have "list_directory_try srv path wd = (Inr result, wd')"
    using assms by (auto simp: list_directory_def split: prod.splits sum.splits)
  from list_directory_try_classified[OF this] show ?thesis by auto
qed

text \<open>
  C5: in every listing \<open>_list_directory\<close> returns, as the function of the blueprint
  and as the method of the plugin, from the MLSD branch and from the NLST branch with
  its probes, the directories and the files are each sorted ascending by their
  lower-cased names, no entry is named \<open>.\<close> or \<open>..\<close>, and the lower-cased name of
  every file ends with one of \<open>.jpg\<close>, \<open>.jpeg\<close>, \<open>.png\<close>, \<open>.bmp\<close>, \<open>.gif\<close>.
\<close>

theorem list_directory_sorted_and_filtered:
  assumes "list_directory srv path wd = (Inr result, wd') \<or>
           plugin_list_directory env path st = (Inr result, st')"
  shows "sorted (map (\<lambda>x. lower (e_name x)) (l_directories result)) \<and>
         sorted (map (\<lambda>x. lower (e_name x)) (l_files result)) \<and>
         (\<forall>x \<in> set (l_directories result) \<union> set (l_files result).
             e_name x \<noteq> ''.'' \<and> e_name x \<noteq> ''..'') \<and>
         (\<forall>x \<in> set (l_files result). endswith_any (lower (e_name x)) image_exts)"
  using assms
proof
  assume "list_directory srv path wd = (Inr result, wd')"
  then show ?thesis by (rule list_directory_result)
next
  assume "plugin_list_directory env path st = (Inr result, st')"
  then obtain w w' where "list_directory (remote env) path w = (Inr result, w')"
    by (auto simp: plugin_list_directory_def
        split: option.splits ftp_conn.splits prod.splits)
  then show ?thesis by (rule list_directory_result)
qed

lemma example_plugin_listing:
  "plugin_list_directory example_env ''/b''
      \<lparr>ftp = Some (Connected ''/''), temp_files = [], local_files = Map.empty, events = []\<rparr> =
    (Inr \<lparr>l_current_path = ''/b'', l_parent_path = ''/'',
       l_directories = [],
       l_files =
         [\<lparr>e_name = ''c.png'', e_path = ''/b/c.png'', e_type = ''file'', e_size = Some ''2''\<rparr>]\<rparr>,
     \<lparr>ftp = Some (Connected ''/b''), temp_files = [], local_files = Map.empty, events = []\<rparr>)"
  by (simp add: plugin_list_directory_def list_directory_def list_directory_try_def
      probe_directory_def ftp_pwd_def ftp_cwd_def ftp_mlsd_def ftp_nlst_def
      os_path_join_def replace_backslash_def os_path_dirname_def rstrip_slash_def
      endswith_any_def endswith_def image_exts_def lower_eval Let_def example_defs)

lemmas list_directory_eval =
  list_directory_def list_directory_try_def probe_directory_def
  ftp_pwd_def ftp_cwd_def ftp_mlsd_def ftp_nlst_def
  os_path_join_def replace_backslash_def os_path_dirname_def
  endswith_any_def endswith_def image_exts_def lower_eval Let_def

lemma example_rich_listing:
  "list_directory (example_server True) ''/'' ''/b'' =
    (Inr \<lparr>l_current_path = ''/'', l_parent_path = ''/'',
       l_directories =
         [\<lparr>e_name = ''b'', e_path = ''/b'', e_type = ''dir'', e_size = None\<rparr>,
          \<lparr>e_name = ''e'', e_path = ''/e'', e_type = ''dir'', e_size = None\<rparr>,
          \<lparr>e_name = ''locked'', e_path = ''/locked'', e_type = ''dir'', e_size = None\<rparr>],
       l_files =
         [\<lparr>e_name = ''a.gif'', e_path = ''/a.gif'', e_type = ''file'', e_size = Some ''7''\<rparr>,
          \<lparr>e_name = ''Z.JPG'', e_path = ''/Z.JPG'', e_type = ''file'', e_size = Some ''4''\<rparr>]\<rparr>,
     ''/'')"
  by (simp add: list_directory_eval example_server_def)

lemma example_probe_listing:
  "list_directory (example_server False) ''/'' ''/b'' =
    (Inr \<lparr>l_current_path = ''/'', l_parent_path = ''/'',
       l_directories =
         [\<lparr>e_name = ''b'', e_path = ''/b'', e_type = ''dir'', e_size = None\<rparr>,
          \<lparr>e_name = ''e'', e_path = ''/e'', e_type = ''dir'', e_size = None\<rparr>],
       l_files =
         [\<lparr>e_name = ''a.gif'', e_path = ''/a.gif'', e_type = ''file'', e_size = Some ''unknown''\<rparr>,
          \<lparr>e_name = ''Z.JPG'', e_path = ''/Z.JPG'', e_type = ''file'', e_size = Some ''unknown''\<rparr>]\<rparr>,
     ''/'')"
  by (simp add: list_directory_eval example_server_def)

text \<open>The root of the small server, listed with MLSD and with NLST.\<close>

theorem list_directory_sorted_and_filtered_witness:
  "list_directory (example_server True) ''/'' ''/b'' =
    (Inr \<lparr>l_current_path = ''/'', l_parent_path = ''/'',
       l_directories =
         [\<lparr>e_name = ''b'', e_path = ''/b'', e_type = ''dir'', e_size = None\<rparr>,
          \<lparr>e_name = ''e'', e_path = ''/e'', e_type = ''dir'', e_size = None\<rparr>,
          \<lparr>e_name = ''locked'', e_path = ''/locked'', e_type = ''dir'', e_size = None\<rparr>],
       l_files =
         [\<lparr>e_name = ''a.gif'', e_path = ''/a.gif'', e_type = ''file'', e_size = Some ''7''\<rparr>,
          \<lparr>e_name = ''Z.JPG'', e_path = ''/Z.JPG'', e_type = ''file'', e_size = Some ''4''\<rparr>]\<rparr>,
     ''/'') \<and>
   list_directory (example_server False) ''/'' ''/b'' =
    (Inr \<lparr>l_current_path = ''/'', l_parent_path = ''/'',
       l_directories =
         [\<lparr>e_name = ''b'', e_path = ''/b'', e_type = ''dir'', e_size = None\<rparr>,
          \<lparr>e_name = ''e'', e_path = ''/e'', e_type = ''dir'', e_size = None\<rparr>],
       l_files =
         [\<lparr>e_name = ''a.gif'', e_path = ''/a.gif'', e_type = ''file'', e_size = Some ''unknown''\<rparr>,
          \<lparr>e_name = ''Z.JPG'', e_path = ''/Z.JPG'', e_type = ''file'', e_size = Some ''unknown''\<rparr>]\<rparr>,
     ''/'') \<and>
   plugin_list_directory example_env ''/b''
      \<lparr>ftp = Some (Connected ''/''), temp_files = [], local_files = Map.empty, events = []\<rparr> =
    (Inr \<lparr>l_current_path = ''/b'', l_parent_path = ''/'',
       l_directories = [],
       l_files =
         [\<lparr>e_name = ''c.png'', e_path = ''/b/c.png'', e_type = ''file'', e_size = Some ''2''\<rparr>]\<rparr>,
     \<lparr>ftp = Some (Connected ''/b''), temp_files = [], local_files = Map.empty, events = []\<rparr>) \<and>
   sorted [lower ''b'', lower ''e'', lower ''locked''] \<and>
   sorted [lower ''a.gif'', lower ''Z.JPG''] \<and>
   endswith_any (lower ''a.gif'') image_exts \<and> endswith_any (lower ''Z.JPG'') image_exts"
  using list_directory_sorted_and_filtered[OF disjI1[OF example_rich_listing]]
    list_directory_sorted_and_filtered[OF disjI1[OF example_probe_listing]]
    list_directory_sorted_and_filtered[OF disjI2[OF example_plugin_listing]]
    example_rich_listing example_probe_listing example_plugin_listing
  by simp

section \<open>The working directory of the walk\<close>




lemmas walk_lower_eval =
  list_images_call_def list_images_try_def
  walk_and_restore_def walk_entry_def probe_and_recurse_def
  ftp_pwd_def ftp_cwd_def ftp_mlsd_def ftp_nlst_def rstrip_slash_def
  endswith_any_def endswith_def image_exts_def lower_eval


lemma example_walk_probe:
  "list_images_recursive (Suc (Suc 0)) (example_server False) image_exts ''/'' ''/b'' =
     Some (Inr [''/b/c.png'', ''/Z.JPG'', ''/a.gif''], ''/b'')"
  by (simp add: walk_lower_eval example_server_def)



end
